theory Spec2Isabelle
  imports Main "HOL-Library.AList"
begin

section \<open>Data model of \<open>creador_cojuntos.py\<close>\<close>

text \<open>
  The module defines one class, \<open>DataFilterManager\<close>. Its attributes hold pandas
  DataFrames, which are Python objects: the same frame can be reached through several
  names (\<open>self.df_principal\<close> and \<open>self.subsets['principal']\<close>;
  \<open>self.subsets[nombre]\<close> and \<open>self.subsets['ultimo']\<close>), and the class assigns
  \<open>_parent\<close>, \<open>_aplicado\<close> and \<open>_palabras_excluidas\<close> on the frames themselves.
  The model therefore keeps an explicit heap of frames; every attribute of the manager that
  holds a frame holds its address.
\<close>

datatype cell = Num int | Txt string | Logico bool | Nulo

text \<open>A row maps column labels to cell values.\<close>

type_synonym row = "(string \<times> cell) list"

text \<open>
  A frame on the heap: its column labels (strings), its rows, and the three attributes the
  class may set on the object. \<open>attr_parent = None\<close> says that the object has no
  attribute \<open>_parent\<close>, \<open>Some None\<close> that the attribute holds Python's \<open>None\<close>.
  \<open>_aplicado\<close> is only ever set to \<open>True\<close>, so the field records whether it is set.
\<close>

record dataframe =
  columnas :: "string list"
  filas :: "row list"
  attr_parent :: "string option option"
  attr_aplicado :: bool
  attr_palabras_excluidas :: "string list option"

datatype excepcion =
  ValueError string | KeyError string | AttributeError string | FiltroError string

type_synonym 'a resultado = "excepcion + 'a"

text \<open>What the methods print, one constructor for each \<open>print\<close> of the source.\<close>

datatype mensaje =
    NoHayOperaciones
  | RestauradoAnterior nat
  | RestauradoOriginal
  | HistorialLimpiado
  | SubsetsEliminados
  | SubsetCreado string nat
  | HijoDe string
  | ExcluidasAgregadas string "string list"
  | SubsetVacio string
  | Eliminadas nat nat
  | EliminadasPadre nat string nat
  | SinEliminarPadre string

text \<open>
  The manager: the five attributes of \<open>__init__\<close> (lines 28-33), the heap of frames
  and the standard output. \<open>subsets\<close> is a Python dict, kept as an association list
  in insertion order.
\<close>

record gestor =
  df_original :: nat
  df_principal :: nat
  columna_id :: string
  subsets :: "(string \<times> nat) list"
  historial_principal :: "nat list"
  heap :: "dataframe list"
  salida :: "mensaje list"

text \<open>
  \<open>filtro_palabras\<close> is imported from elsewhere in the repository and is not among the
  sources. The methods that call it take it as the parameter \<open>F\<close>: a function of the
  rows of the source frame and of the five filter arguments that either raises or returns
  the rows of a new frame. The new frame has the columns of the source frame and none of
  the three attributes.
\<close>

type_synonym filtro =
  "row list \<Rightarrow> string \<Rightarrow> string list \<Rightarrow> string \<Rightarrow> bool \<Rightarrow> bool \<Rightarrow> row list resultado"

section \<open>Frames on the heap\<close>

text \<open>A frame as pandas builds it: columns and rows, none of the three attributes.\<close>

definition nuevo :: "string list \<Rightarrow> row list \<Rightarrow> dataframe" where
  "nuevo cs rs = \<lparr>columnas = cs, filas = rs, attr_parent = None, attr_aplicado = False,
     attr_palabras_excluidas = None\<rparr>"

definition alloc :: "dataframe \<Rightarrow> gestor \<Rightarrow> nat \<times> gestor" where
  "alloc f s = (length (heap s), s\<lparr>heap := heap s @ [f]\<rparr>)"

text \<open>
  \<open>df.copy()\<close>: a new frame with the same columns and rows; attributes set on the object
  are not copied.
\<close>

definition copiar :: "dataframe \<Rightarrow> dataframe" where
  "copiar f = nuevo (columnas f) (filas f)"

definition copy :: "nat \<Rightarrow> gestor \<Rightarrow> nat \<times> gestor" where
  "copy a s = alloc (copiar (heap s ! a)) s"

text \<open>\<open>len(df)\<close> of the frame at an address: the number of rows.\<close>

definition len :: "nat \<Rightarrow> gestor \<Rightarrow> nat" where
  "len a s = length (filas (heap s ! a))"

text \<open>\<open>DataFrame.empty\<close>: true when the frame has no rows or no columns.\<close>

definition vacio :: "dataframe \<Rightarrow> bool" where
  "vacio f \<longleftrightarrow> filas f = [] \<or> columnas f = []"

definition imprimir :: "mensaje \<Rightarrow> gestor \<Rightarrow> gestor" where
  "imprimir m s = s\<lparr>salida := salida s @ [m]\<rparr>"

text \<open>
  Assignment to a name on a frame, as pandas' \<open>__setattr__\<close> does it: when the object has
  no attribute of that name and the name is a column label, the value is written into that
  column of every row, in place; otherwise the attribute is set on the object. Reading a
  name finds the attribute first and the column only when there is no attribute.
\<close>

definition escribir_columna :: "string \<Rightarrow> cell \<Rightarrow> dataframe \<Rightarrow> dataframe" where
  "escribir_columna c v f = f\<lparr>filas := map (AList.update c v) (filas f)\<rparr>"

text \<open>\<open>df._parent = parent\<close>, line 108.\<close>

definition asignar_parent :: "string option \<Rightarrow> dataframe \<Rightarrow> dataframe" where
  "asignar_parent parent f =
     (if attr_parent f = None \<and> ''_parent'' \<in> set (columnas f)
      then escribir_columna ''_parent'' (case parent of None \<Rightarrow> Nulo | Some p \<Rightarrow> Txt p) f
      else f\<lparr>attr_parent := Some parent\<rparr>)"

text \<open>\<open>df._aplicado = True\<close>, line 271.\<close>

definition asignar_aplicado :: "dataframe \<Rightarrow> dataframe" where
  "asignar_aplicado f =
     (if \<not> attr_aplicado f \<and> ''_aplicado'' \<in> set (columnas f)
      then escribir_columna ''_aplicado'' (Logico True) f
      else f\<lparr>attr_aplicado := True\<rparr>)"

text \<open>
  Modelled from the spec: \<open>drop_lines_key\<close> is called by \<open>aplicar_filtro\<close> and is not
  among the sources. The spec gives its contract as \<open>KeySetDiff.diff\<close>: the target rows
  minus every row whose key-column value appears among the key-column values of the
  reference rows, under exact equality of the values. A row without the column has the
  value \<open>None\<close> there. The result is a new frame with the columns of the target.
\<close>

definition drop_lines_key :: "row list \<Rightarrow> row list \<Rightarrow> string \<Rightarrow> row list" where
  "drop_lines_key df_target df_reference column_key =
     filter (\<lambda>r. map_of r column_key \<notin> set (map (\<lambda>q. map_of q column_key) df_reference))
       df_target"

section \<open>The methods of \<open>DataFilterManager\<close>\<close>

text \<open>
  Every method takes the manager and returns what the call returns or raises, and the
  manager as the call leaves it. Frames are returned by address.
\<close>

text \<open>\<open>__init__\<close>, lines 28-33: two copies of the caller's frame.\<close>

definition init :: "dataframe \<Rightarrow> string \<Rightarrow> gestor" where
  "init df columna =
     \<lparr>df_original = 0, df_principal = 1, columna_id = columna,
      subsets = [(''principal'', 1)], historial_principal = [],
      heap = [copiar df, copiar df], salida = []\<rparr>"

text \<open>\<open>restaurar_anterior\<close>, lines 35-54.\<close>

definition restaurar_anterior :: "gestor \<Rightarrow> unit resultado \<times> gestor" where
  "restaurar_anterior s =
     (if historial_principal s = [] then (Inr (), imprimir NoHayOperaciones s)
      else
        let s1 = s\<lparr>df_principal := last (historial_principal s),
                   historial_principal := butlast (historial_principal s)\<rparr>;
            s2 = s1\<lparr>subsets := AList.update ''principal'' (df_principal s1) (subsets s1)\<rparr>
        in (Inr (), imprimir (RestauradoAnterior (len (df_principal s2) s2)) s2))"

text \<open>\<open>restaurar_todo\<close>, lines 56-72.\<close>

definition restaurar_todo :: "gestor \<Rightarrow> unit resultado \<times> gestor" where
  "restaurar_todo s =
     (case copy (df_original s) s of (p, s1) \<Rightarrow>
        let s2 = s1\<lparr>df_principal := p\<rparr>;
            s3 = s2\<lparr>subsets := [(''principal'', df_principal s2)]\<rparr>;
            s4 = s3\<lparr>historial_principal := []\<rparr>
        in (Inr (), imprimir SubsetsEliminados
                      (imprimir HistorialLimpiado (imprimir RestauradoOriginal s4))))"

text \<open>
  \<open>filtrar_por_palabra\<close>, lines 74-114. The name check comes first and has no exception
  for the names \<open>principal\<close> and \<open>ultimo\<close>. An exception of \<open>filtro_palabras\<close>
  passes through before anything is stored. Line 108 assigns \<open>_parent\<close> on the new
  frame: an attribute, or the column of that name when the data has one.
\<close>

definition filtrar_por_palabra ::
  "filtro \<Rightarrow> string \<Rightarrow> string list \<Rightarrow> string \<Rightarrow> string \<Rightarrow> bool \<Rightarrow> bool \<Rightarrow> bool \<Rightarrow>
     string option \<Rightarrow> gestor \<Rightarrow> nat resultado \<times> gestor" where
  "filtrar_por_palabra F columna palabras nombre condicional case_sensitive match_exacto
       usar_principal parent s =
     (if map_of (subsets s) nombre \<noteq> None then (Inl (ValueError nombre), s)
      else
        let df_origen =
              (if usar_principal then df_principal s
               else (case map_of (subsets s) ''ultimo'' of
                       Some u \<Rightarrow> u | None \<Rightarrow> df_principal s))
        in case F (filas (heap s ! df_origen)) columna palabras condicional case_sensitive
                  match_exacto of
             Inl e \<Rightarrow> (Inl e, s)
           | Inr rs \<Rightarrow>
               (case alloc (nuevo (columnas (heap s ! df_origen)) rs) s of (sub, s1) \<Rightarrow>
                  let s2 = s1\<lparr>subsets := AList.update nombre sub (subsets s1)\<rparr>;
                      s3 = s2\<lparr>heap := list_update (heap s2) sub
                                         (asignar_parent parent (heap s2 ! sub))\<rparr>;
                      s4 = s3\<lparr>subsets := AList.update ''ultimo'' sub (subsets s3)\<rparr>;
                      s5 = imprimir (SubsetCreado nombre (len sub s4)) s4;
                      s6 = (case parent of
                              Some p \<Rightarrow> if p \<noteq> [] then imprimir (HijoDe p) s5 else s5
                            | None \<Rightarrow> s5)
                  in (Inr sub, s6)))"

text \<open>
  \<open>agregar_excluidos\<close>, lines 147-162. \<open>hasattr\<close> at line 158 is true for an attribute
  of the object and for a column of that name. With the column and no attribute, line 161
  reads the column, which has no \<open>extend\<close>, and raises \<open>AttributeError\<close>.
\<close>

definition agregar_excluidos :: "string \<Rightarrow> string list \<Rightarrow> gestor \<Rightarrow> unit resultado \<times> gestor" where
  "agregar_excluidos nombre_subset palabras s =
     (case map_of (subsets s) nombre_subset of
        None \<Rightarrow> (Inl (KeyError nombre_subset), s)
      | Some a \<Rightarrow>
          (case attr_palabras_excluidas (heap s ! a) of
             Some ws \<Rightarrow>
               (Inr (), imprimir (ExcluidasAgregadas nombre_subset palabras)
                  (s\<lparr>heap := list_update (heap s) a
                       ((heap s ! a)\<lparr>attr_palabras_excluidas := Some (ws @ palabras)\<rparr>)\<rparr>))
           | None \<Rightarrow>
               if ''_palabras_excluidas'' \<in> set (columnas (heap s ! a))
               then (Inl (AttributeError ''extend''), s)
               else
                 (Inr (), imprimir (ExcluidasAgregadas nombre_subset palabras)
                    (s\<lparr>heap := list_update (heap s) a
                         ((heap s ! a)\<lparr>attr_palabras_excluidas := Some ([] @ palabras)\<rparr>)\<rparr>))))"

text \<open>
  \<open>filtrar_subset\<close>, lines 164-209. The \<open>finally\<close> clause runs on both ways out of the
  \<open>try\<close> block, so the saved principal is put back whatever \<open>filtrar_por_palabra\<close>
  returned or raised.
\<close>

definition filtrar_subset ::
  "filtro \<Rightarrow> string \<Rightarrow> string \<Rightarrow> string list \<Rightarrow> string \<Rightarrow> string \<Rightarrow> bool \<Rightarrow> bool \<Rightarrow>
     gestor \<Rightarrow> nat resultado \<times> gestor" where
  "filtrar_subset F nombre_origen columna palabras nombre condicional case_sensitive
       match_exacto s =
     (case map_of (subsets s) nombre_origen of
        None \<Rightarrow> (Inl (KeyError nombre_origen), s)
      | Some origen \<Rightarrow>
          let df_origen_guardado = df_principal s;
              s1 = s\<lparr>df_principal := origen\<rparr>
          in case filtrar_por_palabra F columna palabras nombre condicional case_sensitive
                    match_exacto True (Some nombre_origen) s1 of
               (resultado, s2) \<Rightarrow> (resultado, s2\<lparr>df_principal := df_origen_guardado\<rparr>))"

text \<open>
  Lines 237-249 of \<open>aplicar_filtro\<close>: a copy of the principal table is pushed on the
  history, then the rows of \<open>sub\<close> are dropped from the principal table and the store
  entry \<open>principal\<close> is pointed at the result.
\<close>

definition eliminar_del_principal :: "nat \<Rightarrow> gestor \<Rightarrow> gestor" where
  "eliminar_del_principal sub s =
     (case copy (df_principal s) s of (snap, s1) \<Rightarrow>
        (let s2 = s1\<lparr>historial_principal := historial_principal s1 @ [snap]\<rparr> in
          (case alloc (nuevo (columnas (heap s2 ! df_principal s2))
                         (drop_lines_key (filas (heap s2 ! df_principal s2))
                            (filas (heap s2 ! sub)) (columna_id s2))) s2 of
             (p, s3) \<Rightarrow>
               (let s4 = s3\<lparr>df_principal := p\<rparr>;
                    s5 = s4\<lparr>subsets :=
                             AList.update ''principal'' (df_principal s4) (subsets s4)\<rparr>
                in imprimir (Eliminadas (len sub s5) (len (df_principal s5) s5)) s5))))"

text \<open>
  Lines 254-268 of \<open>aplicar_filtro\<close>: the rows of \<open>sub\<close> are dropped from the frame
  stored under \<open>parent_name\<close>, when that name is in the store. The result of
  \<open>drop_lines_key\<close> is a new frame, which replaces the store entry.
\<close>

definition eliminar_del_padre :: "string \<Rightarrow> nat \<Rightarrow> gestor \<Rightarrow> gestor" where
  "eliminar_del_padre parent_name sub s =
     (case map_of (subsets s) parent_name of
        None \<Rightarrow> s
      | Some padre \<Rightarrow>
          (case copy padre s of (parent_df_original, s1) \<Rightarrow>
           case alloc (nuevo (columnas (heap s1 ! padre))
                         (drop_lines_key (filas (heap s1 ! padre)) (filas (heap s1 ! sub))
                            (columna_id s1))) s1 of (nuevo_padre, s2) \<Rightarrow>
             let s3 = s2\<lparr>subsets := AList.update parent_name nuevo_padre (subsets s2)\<rparr>;
                 filas_eliminadas = int (len parent_df_original s3) - int (len nuevo_padre s3)
             in if filas_eliminadas > 0
                then imprimir (EliminadasPadre (nat filas_eliminadas) parent_name
                                 (len nuevo_padre s3)) s3
                else imprimir (SinEliminarPadre parent_name) s3))"

text \<open>
  Lines 251-253 of \<open>aplicar_filtro\<close>. The test
  \<open>propagar_a_padre and hasattr(subset, '_parent') and subset._parent\<close> is evaluated
  from the left and its value is tested for truth. An attribute \<open>_parent\<close> on the object
  passes when it holds a non-empty string and fails for \<open>None\<close> and for the empty
  string. With no attribute and a column \<open>_parent\<close> in the data, \<open>hasattr\<close> is true,
  the value is the column, and the truth test of a column raises \<open>ValueError\<close>.
\<close>

definition propagar :: "bool \<Rightarrow> nat \<Rightarrow> gestor \<Rightarrow> unit resultado \<times> gestor" where
  "propagar propagar_a_padre sub s =
     (if \<not> propagar_a_padre then (Inr (), s)
      else
        (case attr_parent (heap s ! sub) of
           Some (Some parent_name) \<Rightarrow>
             if parent_name \<noteq> [] then (Inr (), eliminar_del_padre parent_name sub s)
             else (Inr (), s)
         | Some None \<Rightarrow> (Inr (), s)
         | None \<Rightarrow>
             if ''_parent'' \<in> set (columnas (heap s ! sub))
             then (Inl (ValueError ''_parent''), s)
             else (Inr (), s)))"

text \<open>
  Line 271 of \<open>aplicar_filtro\<close>: \<open>_aplicado\<close> is assigned on the frame now stored under
  the name.
\<close>

definition marcar_aplicado :: "string \<Rightarrow> gestor \<Rightarrow> unit resultado \<times> gestor" where
  "marcar_aplicado nombre_subset s =
     (case map_of (subsets s) nombre_subset of
        None \<Rightarrow> (Inl (KeyError nombre_subset), s)
      | Some x \<Rightarrow>
          (Inr (), s\<lparr>heap := list_update (heap s) x (asignar_aplicado (heap s ! x))\<rparr>))"

text \<open>
  \<open>aplicar_filtro\<close>, lines 211-271, from the three steps above. Line 233 tests
  \<open>subset.empty\<close>. An exception at line 252 leaves the manager as lines 237-249 made it:
  the snapshot is on the history and the principal table is replaced.
\<close>

definition aplicar_filtro :: "string \<Rightarrow> bool \<Rightarrow> gestor \<Rightarrow> unit resultado \<times> gestor" where
  "aplicar_filtro nombre_subset propagar_a_padre s =
     (case map_of (subsets s) nombre_subset of
        None \<Rightarrow> (Inl (KeyError nombre_subset), s)
      | Some sub \<Rightarrow>
          if vacio (heap s ! sub) then (Inr (), imprimir (SubsetVacio nombre_subset) s)
          else
            (case propagar propagar_a_padre sub (eliminar_del_principal sub s) of
               (Inl e, s1) \<Rightarrow> (Inl e, s1)
             | (Inr u, s1) \<Rightarrow> marcar_aplicado nombre_subset s1))"

text \<open>\<open>get_principal\<close>, lines 273-282, and \<open>get_subset\<close>, lines 303-319: copies.\<close>

definition get_principal :: "gestor \<Rightarrow> nat resultado \<times> gestor" where
  "get_principal s = (case copy (df_principal s) s of (a, s1) \<Rightarrow> (Inr a, s1))"

definition get_subset :: "string \<Rightarrow> gestor \<Rightarrow> nat resultado \<times> gestor" where
  "get_subset nombre s =
     (case map_of (subsets s) nombre of
        None \<Rightarrow> (Inl (KeyError nombre), s)
      | Some a \<Rightarrow> (case copy a s of (b, s1) \<Rightarrow> (Inr b, s1)))"

section \<open>Observations, well-formed managers and runs\<close>

text \<open>The rows of the principal table, and the rows stored under a name.\<close>

definition filas_principal :: "gestor \<Rightarrow> row list" where
  "filas_principal s = filas (heap s ! df_principal s)"

definition filas_subset :: "string \<Rightarrow> gestor \<Rightarrow> row list option" where
  "filas_subset nombre s =
     (case map_of (subsets s) nombre of
        None \<Rightarrow> None
      | Some a \<Rightarrow> Some (filas (heap s ! a)))"

text \<open>The addresses in the store.\<close>

definition direcciones :: "gestor \<Rightarrow> nat list" where
  "direcciones s = map snd (subsets s)"

text \<open>
  Every address the manager holds is the address of a frame on the heap. In Python this
  holds of every manager, since a reference always points to an object; in the model it is
  the hypothesis \<open>bien_formado\<close> of the statements that read or write a frame after an
  allocation.
\<close>

definition bien_formado :: "gestor \<Rightarrow> bool" where
  "bien_formado s \<longleftrightarrow>
     df_original s < length (heap s) \<and> df_principal s < length (heap s) \<and>
     list_all (\<lambda>a. a < length (heap s)) (direcciones s) \<and>
     list_all (\<lambda>a. a < length (heap s)) (historial_principal s)"

text \<open>
  A frame that is on the heap and is neither in the store nor on the history. The methods
  write in place only on frames of the store, and the only frames that enter the store are
  new ones and snapshots popped from the history.
\<close>

definition aparte :: "nat \<Rightarrow> gestor \<Rightarrow> bool" where
  "aparte a s \<longleftrightarrow>
     a < length (heap s) \<and> a \<notin> set (direcciones s) \<and>
     a \<notin> set (historial_principal s)"

text \<open>
  Every frame of the manager has the columns \<open>cs\<close>. The methods build each new frame
  from the columns of a frame that the manager already holds.
\<close>

definition columnas_iguales :: "string list \<Rightarrow> gestor \<Rightarrow> bool" where
  "columnas_iguales cs s \<longleftrightarrow> list_all (\<lambda>f. columnas f = cs) (heap s)"

text \<open>
  The public methods that assign to the manager or to a frame, as calls. The methods
  \<open>ver_top_palabras\<close> and \<open>listar_subsets\<close> only read and print.
\<close>

datatype llamada =
    RestaurarAnterior
  | RestaurarTodo
  | FiltrarPorPalabra string "string list" string string bool bool bool "string option"
  | AgregarExcluidos string "string list"
  | FiltrarSubset string string "string list" string string bool bool
  | AplicarFiltro string bool
  | GetPrincipal
  | GetSubset string

text \<open>The manager after a call, whether the call returned or raised.\<close>

fun ejecutar :: "filtro \<Rightarrow> llamada \<Rightarrow> gestor \<Rightarrow> gestor" where
  "ejecutar F RestaurarAnterior s = snd (restaurar_anterior s)"
| "ejecutar F RestaurarTodo s = snd (restaurar_todo s)"
| "ejecutar F (FiltrarPorPalabra columna palabras nombre condicional case_sensitive
      match_exacto usar_principal parent) s =
     snd (filtrar_por_palabra F columna palabras nombre condicional case_sensitive
            match_exacto usar_principal parent s)"
| "ejecutar F (AgregarExcluidos nombre_subset palabras) s =
     snd (agregar_excluidos nombre_subset palabras s)"
| "ejecutar F (FiltrarSubset nombre_origen columna palabras nombre condicional
      case_sensitive match_exacto) s =
     snd (filtrar_subset F nombre_origen columna palabras nombre condicional
            case_sensitive match_exacto s)"
| "ejecutar F (AplicarFiltro nombre_subset propagar_a_padre) s =
     snd (aplicar_filtro nombre_subset propagar_a_padre s)"
| "ejecutar F GetPrincipal s = snd (get_principal s)"
| "ejecutar F (GetSubset nombre) s = snd (get_subset nombre s)"

definition correr :: "filtro \<Rightarrow> llamada list \<Rightarrow> gestor \<Rightarrow> gestor" where
  "correr F llamadas s = fold (ejecutar F) llamadas s"

section \<open>A small dataset for the examples\<close>

text \<open>
  Three rows keyed by \<open>id\<close>, and a filter that keeps the rows whose cell in the column is
  one of the keywords (exact match, OR).
\<close>

definition fila1 :: row where
  "fila1 = [(''id'', Num 1), (''descripcion'', Txt ''x''), (''tipo'', Txt ''n'')]"

definition fila2 :: row where
  "fila2 = [(''id'', Num 2), (''descripcion'', Txt ''z''), (''tipo'', Txt ''y'')]"

definition fila3 :: row where
  "fila3 = [(''id'', Num 3), (''descripcion'', Txt ''x''), (''tipo'', Txt ''y'')]"

definition cols3 :: "string list" where
  "cols3 = [''id'', ''descripcion'', ''tipo'']"

definition tabla3 :: dataframe where
  "tabla3 = nuevo cols3 [fila1, fila2, fila3]"

definition filtro_exacto :: filtro where
  "filtro_exacto rs columna palabras condicional case_sensitive match_exacto =
     Inr (filter (\<lambda>r. list_ex (\<lambda>p. map_of r columna = Some (Txt p)) palabras) rs)"

definition gestor0 :: gestor where
  "gestor0 = init tabla3 ''id''"

text \<open>Subset \<open>A\<close>: the rows with description \<open>x\<close> (ids 1 and 3).\<close>

definition gestorA :: gestor where
  "gestorA = snd (filtrar_por_palabra filtro_exacto ''descripcion'' [''x''] ''A'' ''OR''
                    False True True None gestor0)"

text \<open>Subset \<open>B\<close>, child of \<open>A\<close>: the rows of \<open>A\<close> with type \<open>y\<close> (id 3).\<close>

definition gestorB :: gestor where
  "gestorB = snd (filtrar_subset filtro_exacto ''A'' ''tipo'' [''y''] ''B'' ''OR''
                    False True gestorA)"

text \<open>The rows of \<open>B\<close> deleted, with propagation to \<open>A\<close>.\<close>

definition gestorC :: gestor where
  "gestorC = snd (aplicar_filtro ''B'' True gestorB)"

text \<open>A subset \<open>B\<close> filtered from the alias \<open>ultimo\<close>, which then points at \<open>B\<close>.\<close>

definition gestorU :: gestor where
  "gestorU = snd (filtrar_subset filtro_exacto ''ultimo'' ''tipo'' [''y''] ''B'' ''OR''
                    False True gestorA)"

text \<open>
  A subset filtered from \<open>principal\<close> and deleted with propagation: the parent is the
  store entry \<open>principal\<close> itself.
\<close>

definition gestorY :: gestor where
  "gestorY = correr filtro_exacto
     [FiltrarSubset ''principal'' ''tipo'' [''y''] ''Y'' ''OR'' False True,
      AplicarFiltro ''Y'' True] (init tabla3 ''id'')"

text \<open>
  Three generations: \<open>B\<close> holds all rows of \<open>A\<close>, \<open>C\<close> the row of \<open>B\<close> with type
  \<open>y\<close>; then the rows of \<open>C\<close> are deleted with propagation, which replaces the frame
  stored under \<open>B\<close>.
\<close>

definition gestorN :: gestor where
  "gestorN = correr filtro_exacto
     [FiltrarSubset ''A'' ''tipo'' [''n'', ''y''] ''B'' ''OR'' False True,
      FiltrarSubset ''B'' ''tipo'' [''y''] ''C'' ''OR'' False True,
      AplicarFiltro ''C'' True] gestorA"

text \<open>A subset \<open>E\<close> with no rows: no row has type \<open>k\<close>.\<close>

definition gestorE :: gestor where
  "gestorE = snd (filtrar_por_palabra filtro_exacto ''tipo'' [''k''] ''E'' ''OR''
                    False True True None gestor0)"

text \<open>A frame with three rows and no column, and the manager built from it.\<close>

definition fila_vacia :: row where
  "fila_vacia = []"

definition tabla_sin_columnas :: dataframe where
  "tabla_sin_columnas = nuevo [] [fila_vacia, fila_vacia, fila_vacia]"

definition gestorS :: gestor where
  "gestorS = init tabla_sin_columnas ''id''"

text \<open>
  A table with data columns named \<open>_parent\<close> and \<open>_palabras_excluidas\<close>, and a
  subset \<open>A\<close> of it: the row whose cell in the column \<open>_parent\<close> is \<open>q\<close>.
\<close>

definition filaP1 :: row where
  "filaP1 = [(''id'', Num 1), (''_parent'', Txt ''q''), (''_palabras_excluidas'', Txt ''w'')]"

definition filaP2 :: row where
  "filaP2 = [(''id'', Num 2), (''_parent'', Txt ''r''), (''_palabras_excluidas'', Txt ''w'')]"

text \<open>The row \<open>filaP1\<close> with \<open>None\<close> written into its column \<open>_parent\<close>.\<close>

definition filaPA :: row where
  "filaPA = [(''id'', Num 1), (''_parent'', Nulo), (''_palabras_excluidas'', Txt ''w'')]"

definition colsP :: "string list" where
  "colsP = [''id'', ''_parent'', ''_palabras_excluidas'']"

definition tablaP :: dataframe where
  "tablaP = nuevo colsP [filaP1, filaP2]"

definition gestorP :: gestor where
  "gestorP = snd (filtrar_por_palabra filtro_exacto ''_parent'' [''q''] ''A'' ''OR''
                    False True True None (init tablaP ''id''))"

section \<open>The store and the outcomes of a creation\<close>

text \<open>
  Lookups in the store give addresses of the store; the three outcomes of
  \<open>filtrar_por_palabra\<close>: a duplicate name, an exception of the filter, a new subset.
\<close>

lemma map_of_snd_bound:
  "list_all P (map snd al) \<Longrightarrow> map_of al k = Some a \<Longrightarrow> P a"
  by (induction al) (auto split: if_splits)

lemma map_of_direcciones:
  "map_of (subsets s) k = Some a \<Longrightarrow> a \<in> set (direcciones s)"
  unfolding direcciones_def by (metis map_of_SomeD set_zip_rightD zip_map_fst_snd)

lemma snd_update_cases:
  "(k', x) \<in> set (AList.update k v al) \<Longrightarrow> x = v \<or> (k', x) \<in> set al"
  by (induction al) (auto split: if_splits)

lemma direcciones_update:
  "x \<in> set (map snd (AList.update k v al)) \<Longrightarrow> x = v \<or> x \<in> set (map snd al)"
  using snd_update_cases by fastforce

lemma bien_formado_iff:
  "bien_formado s \<longleftrightarrow>
     df_original s < length (heap s) \<and> df_principal s < length (heap s) \<and>
     (\<forall>a \<in> set (direcciones s). a < length (heap s)) \<and>
     (\<forall>a \<in> set (historial_principal s). a < length (heap s))"
  by (auto simp: bien_formado_def list_all_iff)

lemma bien_formado_lookup:
  assumes "bien_formado s" and "map_of (subsets s) k = Some a"
  shows "a < length (heap s)"
  using assms map_of_direcciones [OF assms(2)] by (simp add: bien_formado_iff)

lemma nth_take_eq: "take n xs = ys \<Longrightarrow> i < n \<Longrightarrow> xs ! i = ys ! i"
  by auto

lemma filtrar_subset_None:
  "map_of (subsets s) no = None \<Longrightarrow>
     filtrar_subset F no c p n co cs me s = (Inl (KeyError no), s)"
  by (simp add: filtrar_subset_def)

lemma filtrar_subset_Some:
  "map_of (subsets s) no = Some a \<Longrightarrow>
     filtrar_subset F no c p n co cs me s =
       (fst (filtrar_por_palabra F c p n co cs me True (Some no) (s\<lparr>df_principal := a\<rparr>)),
        (snd (filtrar_por_palabra F c p n co cs me True (Some no) (s\<lparr>df_principal := a\<rparr>)))
          \<lparr>df_principal := df_principal s\<rparr>)"
  by (simp add: filtrar_subset_def Let_def split: prod.splits)

lemma filtrar_por_palabra_duplicado:
  "map_of (subsets s) n \<noteq> None \<Longrightarrow>
     filtrar_por_palabra F c p n co cs me up par s = (Inl (ValueError n), s)"
  by (simp add: filtrar_por_palabra_def)

lemma filtrar_subset_duplicado:
  assumes "map_of (subsets s) n \<noteq> None" and "map_of (subsets s) no \<noteq> None"
  shows "filtrar_subset F no c p n co cs me s = (Inl (ValueError n), s)"
proof -
  from assms(2) obtain a where a: "map_of (subsets s) no = Some a" by auto
  have "filtrar_por_palabra F c p n co cs me True (Some no) (s\<lparr>df_principal := a\<rparr>) =
          (Inl (ValueError n), s\<lparr>df_principal := a\<rparr>)"
    using assms(1) by (simp add: filtrar_por_palabra_duplicado)
  then show ?thesis by (simp add: filtrar_subset_Some [OF a])
qed

lemma filtrar_por_palabra_casos:
  "filtrar_por_palabra F c p n co cs me up par s = (Inl (ValueError n), s) \<and>
     map_of (subsets s) n \<noteq> None \<or>
   (\<exists>e. filtrar_por_palabra F c p n co cs me up par s = (Inl e, s)) \<and>
     map_of (subsets s) n = None \<or>
   map_of (subsets s) n = None \<and>
   (\<exists>rs o' m. F (filas (heap s ! o')) c p co cs me = Inr rs \<and>
      o' = (if up then df_principal s
            else (case map_of (subsets s) ''ultimo'' of Some u \<Rightarrow> u
                  | None \<Rightarrow> df_principal s)) \<and>
      filtrar_por_palabra F c p n co cs me up par s =
        (Inr (length (heap s)),
         s\<lparr>heap := heap s @ [asignar_parent par (nuevo (columnas (heap s ! o')) rs)],
           subsets := AList.update ''ultimo'' (length (heap s))
                        (AList.update n (length (heap s)) (subsets s)),
           salida := salida s @ m\<rparr>))"
proof (cases "map_of (subsets s) n = None")
  case False
  then show ?thesis by (simp add: filtrar_por_palabra_duplicado)
next
  case True
  let ?o = "if up then df_principal s
            else (case map_of (subsets s) ''ultimo'' of Some u \<Rightarrow> u | None \<Rightarrow> df_principal s)"
  show ?thesis
  proof (cases "F (filas (heap s ! ?o)) c p co cs me")
    case (Inl e)
    with True show ?thesis by (simp add: filtrar_por_palabra_def Let_def)
  next
    case (Inr rs)
    have "\<exists>m. filtrar_por_palabra F c p n co cs me up par s =
        (Inr (length (heap s)),
         s\<lparr>heap := heap s @ [asignar_parent par (nuevo (columnas (heap s ! ?o)) rs)],
           subsets := AList.update ''ultimo'' (length (heap s))
                        (AList.update n (length (heap s)) (subsets s)),
           salida := salida s @ m\<rparr>)"
    proof (cases par)
      case None
      with True Inr show ?thesis
        by (intro exI [of _ "[SubsetCreado n (length (filas (asignar_parent par
              (nuevo (columnas (heap s ! ?o)) rs))))]"])
          (simp add: filtrar_por_palabra_def Let_def alloc_def imprimir_def len_def)
    next
      case (Some q)
      with True Inr show ?thesis
        by (intro exI [of _ "SubsetCreado n (length (filas (asignar_parent par
              (nuevo (columnas (heap s ! ?o)) rs)))) # (if q \<noteq> [] then [HijoDe q] else [])"])
          (simp add: filtrar_por_palabra_def Let_def alloc_def imprimir_def len_def)
    qed
    with True Inr show ?thesis by auto
  qed
qed

section \<open>Creating subsets\<close>

text \<open>
  What a creation changes: one frame is appended to the heap, and the store gets the new name
  and the alias \<open>ultimo\<close>. The frames already on the heap, the principal table, the
  original frame and the history stay as they are.
\<close>

lemma filtrar_por_palabra_Inr:
  assumes "filtrar_por_palabra F c p n co cs me up par s = (Inr a, s1)"
  shows "a = length (heap s)" and "map_of (subsets s) n = None"
    and "subsets s1 = AList.update ''ultimo'' a (AList.update n a (subsets s))"
    and "df_principal s1 = df_principal s" and "columna_id s1 = columna_id s"
    and "historial_principal s1 = historial_principal s"
    and "df_original s1 = df_original s"
    and "\<exists>rs. F (filas (heap s ! (if up then df_principal s
                   else (case map_of (subsets s) ''ultimo'' of Some u \<Rightarrow> u
                         | None \<Rightarrow> df_principal s)))) c p co cs me = Inr rs \<and>
              heap s1 = heap s @ [asignar_parent par
                (nuevo (columnas (heap s ! (if up then df_principal s
                   else (case map_of (subsets s) ''ultimo'' of Some u \<Rightarrow> u
                         | None \<Rightarrow> df_principal s)))) rs)]"
  using assms filtrar_por_palabra_casos [of F c p n co cs me up par s]
  by auto

lemma filtrar_por_palabra_registra:
  assumes "filtrar_por_palabra F c p n co cs me up par s = (Inr a, s1)"
  shows "map_of (subsets s1) n = Some a" and "map_of (subsets s1) ''ultimo'' = Some a"
  using filtrar_por_palabra_Inr(3) [OF assms] by (simp_all add: update_conv')

lemma filtrar_por_palabra_campos:
  "take (length (heap s)) (heap (snd (filtrar_por_palabra F c p n co cs me up par s))) = heap s"
  "df_principal (snd (filtrar_por_palabra F c p n co cs me up par s)) = df_principal s"
  "df_original (snd (filtrar_por_palabra F c p n co cs me up par s)) = df_original s"
  "historial_principal (snd (filtrar_por_palabra F c p n co cs me up par s)) =
     historial_principal s"
  "length (heap s) \<le> length (heap (snd (filtrar_por_palabra F c p n co cs me up par s)))"
  using filtrar_por_palabra_casos [of F c p n co cs me up par s]
  by auto

lemma subsets_filtrar_por_palabra:
  "subsets (snd (filtrar_por_palabra F c p n co cs me up par s)) = subsets s \<or>
   map_of (subsets s) n = None \<and>
   subsets (snd (filtrar_por_palabra F c p n co cs me up par s)) =
     AList.update ''ultimo'' (length (heap s)) (AList.update n (length (heap s)) (subsets s))"
  using filtrar_por_palabra_casos [of F c p n co cs me up par s]
  by auto

lemma filtrar_subset_campos:
  "take (length (heap s)) (heap (snd (filtrar_subset F no c p n co cs me s))) = heap s"
  "df_principal (snd (filtrar_subset F no c p n co cs me s)) = df_principal s"
  "df_original (snd (filtrar_subset F no c p n co cs me s)) = df_original s"
  "historial_principal (snd (filtrar_subset F no c p n co cs me s)) = historial_principal s"
  "length (heap s) \<le> length (heap (snd (filtrar_subset F no c p n co cs me s)))"
proof -
  show "take (length (heap s)) (heap (snd (filtrar_subset F no c p n co cs me s))) = heap s"
  proof (cases "map_of (subsets s) no")
    case None
    then show ?thesis by (simp add: filtrar_subset_None)
  next
    case (Some a)
    show ?thesis
      using filtrar_por_palabra_campos(1)
        [of "s\<lparr>df_principal := a\<rparr>" F c p n co cs me True "Some no"]
      by (simp add: filtrar_subset_Some [OF Some])
  qed
  show "df_principal (snd (filtrar_subset F no c p n co cs me s)) = df_principal s"
    by (cases "map_of (subsets s) no") (simp_all add: filtrar_subset_None filtrar_subset_Some)
  show "df_original (snd (filtrar_subset F no c p n co cs me s)) = df_original s"
    by (cases "map_of (subsets s) no")
      (simp_all add: filtrar_subset_None filtrar_subset_Some filtrar_por_palabra_campos)
  show "historial_principal (snd (filtrar_subset F no c p n co cs me s)) =
      historial_principal s"
    by (cases "map_of (subsets s) no")
      (simp_all add: filtrar_subset_None filtrar_subset_Some filtrar_por_palabra_campos)
  show "length (heap s) \<le> length (heap (snd (filtrar_subset F no c p n co cs me s)))"
  proof (cases "map_of (subsets s) no")
    case None
    then show ?thesis by (simp add: filtrar_subset_None)
  next
    case (Some a)
    show ?thesis
      using filtrar_por_palabra_campos(5)
        [of "s\<lparr>df_principal := a\<rparr>" F c p n co cs me True "Some no"]
      by (simp add: filtrar_subset_Some [OF Some])
  qed
qed

lemma subsets_filtrar_subset:
  "subsets (snd (filtrar_subset F no c p n co cs me s)) = subsets s \<or>
   map_of (subsets s) n = None \<and>
   subsets (snd (filtrar_subset F no c p n co cs me s)) =
     AList.update ''ultimo'' (length (heap s)) (AList.update n (length (heap s)) (subsets s))"
proof (cases "map_of (subsets s) no")
  case None
  then show ?thesis by (simp add: filtrar_subset_None)
next
  case (Some a)
  show ?thesis
    using subsets_filtrar_por_palabra [of F c p n co cs me True "Some no" "s\<lparr>df_principal := a\<rparr>"]
    by (simp add: filtrar_subset_Some [OF Some])
qed

section \<open>The steps of \<open>aplicar_filtro\<close>\<close>

text \<open>
  The fields of the manager after each step of a deletion.
\<close>

lemma eliminar_del_principal_campos:
  "historial_principal (eliminar_del_principal sub s) =
     historial_principal s @ [length (heap s)]"
  "length (heap (eliminar_del_principal sub s)) = Suc (Suc (length (heap s)))"
  "take (length (heap s)) (heap (eliminar_del_principal sub s)) = heap s"
  "heap (eliminar_del_principal sub s) ! length (heap s) = copiar (heap s ! df_principal s)"
  "df_principal (eliminar_del_principal sub s) = Suc (length (heap s))"
  "df_original (eliminar_del_principal sub s) = df_original s"
  "columna_id (eliminar_del_principal sub s) = columna_id s"
  "subsets (eliminar_del_principal sub s) =
     AList.update ''principal'' (Suc (length (heap s))) (subsets s)"
  by (simp_all add: eliminar_del_principal_def imprimir_def Let_def copy_def alloc_def
      nth_append)

lemma eliminar_del_principal_nuevo:
  assumes "df_principal s < length (heap s)" and "sub < length (heap s)"
  shows "heap (eliminar_del_principal sub s) ! Suc (length (heap s)) =
           nuevo (columnas (heap s ! df_principal s))
             (drop_lines_key (filas (heap s ! df_principal s)) (filas (heap s ! sub))
                (columna_id s))"
  using assms
  by (simp add: eliminar_del_principal_def imprimir_def Let_def copy_def alloc_def nth_append)

lemma eliminar_del_padre_campos:
  "historial_principal (eliminar_del_padre pn sub s) = historial_principal s"
  "df_principal (eliminar_del_padre pn sub s) = df_principal s"
  "df_original (eliminar_del_padre pn sub s) = df_original s"
  "columna_id (eliminar_del_padre pn sub s) = columna_id s"
  "take (length (heap s)) (heap (eliminar_del_padre pn sub s)) = heap s"
  "length (heap s) \<le> length (heap (eliminar_del_padre pn sub s))"
  "subsets (eliminar_del_padre pn sub s) =
     (case map_of (subsets s) pn of
        None \<Rightarrow> subsets s
      | Some padre \<Rightarrow> AList.update pn (Suc (length (heap s))) (subsets s))"
  by (simp_all add: eliminar_del_padre_def imprimir_def Let_def copy_def alloc_def
      split: option.splits)

lemma eliminar_del_padre_nuevo:
  assumes "map_of (subsets s) pn = Some padre" and "padre < length (heap s)"
    and "sub < length (heap s)"
  shows "heap (eliminar_del_padre pn sub s) ! Suc (length (heap s)) =
           nuevo (columnas (heap s ! padre))
             (drop_lines_key (filas (heap s ! padre)) (filas (heap s ! sub)) (columna_id s))"
    and "map_of (subsets (eliminar_del_padre pn sub s)) pn = Some (Suc (length (heap s)))"
    and "length (heap (eliminar_del_padre pn sub s)) = Suc (Suc (length (heap s)))"
  using assms
  by (simp_all add: eliminar_del_padre_def imprimir_def Let_def copy_def alloc_def nth_append
      update_conv')

lemma propagar_casos:
  "propagar pr sub s = (Inr (), s) \<or>
   (\<exists>pn. pr \<and> attr_parent (heap s ! sub) = Some (Some pn) \<and> pn \<noteq> [] \<and>
      propagar pr sub s = (Inr (), eliminar_del_padre pn sub s)) \<or>
   pr \<and> attr_parent (heap s ! sub) = None \<and> ''_parent'' \<in> set (columnas (heap s ! sub)) \<and>
     propagar pr sub s = (Inl (ValueError ''_parent''), s)"
  by (simp add: propagar_def split: option.splits)

lemma propagar_campos:
  "historial_principal (snd (propagar pr sub s)) = historial_principal s"
  "df_principal (snd (propagar pr sub s)) = df_principal s"
  "df_original (snd (propagar pr sub s)) = df_original s"
  "columna_id (snd (propagar pr sub s)) = columna_id s"
  "take (length (heap s)) (heap (snd (propagar pr sub s))) = heap s"
  "length (heap s) \<le> length (heap (snd (propagar pr sub s)))"
  using propagar_casos [of pr sub s]
  by (auto simp: eliminar_del_padre_campos)

lemma eliminar_del_padre_direcciones:
  assumes "x \<in> set (direcciones (eliminar_del_padre pn sub s))"
  shows "x \<in> set (direcciones s) \<or> x = Suc (length (heap s))"
proof (cases "map_of (subsets s) pn")
  case None
  with assms show ?thesis by (simp add: direcciones_def eliminar_del_padre_campos)
next
  case (Some padre)
  with assms have "x \<in> set (map snd (AList.update pn (Suc (length (heap s))) (subsets s)))"
    by (simp add: direcciones_def eliminar_del_padre_campos)
  then have "x = Suc (length (heap s)) \<or> x \<in> set (map snd (subsets s))"
    by (rule direcciones_update)
  then show ?thesis unfolding direcciones_def by blast
qed

lemma propagar_direcciones:
  assumes "x \<in> set (direcciones (snd (propagar pr sub s)))"
  shows "x \<in> set (direcciones s) \<or> x = Suc (length (heap s))"
  using propagar_casos [of pr sub s] assms eliminar_del_padre_direcciones [of x _ sub s]
  by auto

lemma map_of_propagar:
  "map_of (subsets s) k \<noteq> None \<Longrightarrow> map_of (subsets (snd (propagar pr sub s))) k \<noteq> None"
  using propagar_casos [of pr sub s]
  by (auto simp: eliminar_del_padre_campos update_conv' split: option.splits)

lemma propagar_fst:
  "fst (propagar pr sub s) =
     (if pr \<and> attr_parent (heap s ! sub) = None \<and> ''_parent'' \<in> set (columnas (heap s ! sub))
      then Inl (ValueError ''_parent'') else Inr ())"
  by (simp add: propagar_def split: option.splits)

lemma marcar_aplicado_campos:
  "historial_principal (snd (marcar_aplicado n s)) = historial_principal s"
  "df_principal (snd (marcar_aplicado n s)) = df_principal s"
  "df_original (snd (marcar_aplicado n s)) = df_original s"
  "columna_id (snd (marcar_aplicado n s)) = columna_id s"
  "subsets (snd (marcar_aplicado n s)) = subsets s"
  "length (heap (snd (marcar_aplicado n s))) = length (heap s)"
  "map_of (subsets s) n \<noteq> None \<Longrightarrow> fst (marcar_aplicado n s) = Inr ()"
  by (auto simp: marcar_aplicado_def split: option.splits)

lemma marcar_aplicado_otro:
  "map_of (subsets s) n \<noteq> Some a \<Longrightarrow> heap (snd (marcar_aplicado n s)) ! a = heap s ! a"
  by (auto simp: marcar_aplicado_def split: option.splits)

lemma marcar_aplicado_fuera:
  "a \<notin> set (direcciones s) \<Longrightarrow> heap (snd (marcar_aplicado n s)) ! a = heap s ! a"
  using map_of_direcciones [of s n a] by (auto intro: marcar_aplicado_otro)

lemma aplicar_filtro_None:
  "map_of (subsets s) n = None \<Longrightarrow> aplicar_filtro n pr s = (Inl (KeyError n), s)"
  by (simp add: aplicar_filtro_def)

lemma aplicar_filtro_vacio:
  "map_of (subsets s) n = Some sub \<Longrightarrow> vacio (heap s ! sub) \<Longrightarrow>
     aplicar_filtro n pr s = (Inr (), s\<lparr>salida := salida s @ [SubsetVacio n]\<rparr>)"
  by (simp add: aplicar_filtro_def imprimir_def)

lemma aplicar_filtro_no_vacio:
  "map_of (subsets s) n = Some sub \<Longrightarrow> \<not> vacio (heap s ! sub) \<Longrightarrow>
     aplicar_filtro n pr s =
       (case propagar pr sub (eliminar_del_principal sub s) of
          (Inl e, s1) \<Rightarrow> (Inl e, s1)
        | (Inr u, s1) \<Rightarrow> marcar_aplicado n s1)"
  by (simp add: aplicar_filtro_def)

lemma aplicar_filtro_no_vacio_snd:
  assumes "map_of (subsets s) n = Some sub" and "\<not> vacio (heap s ! sub)"
  shows "snd (aplicar_filtro n pr s) = snd (propagar pr sub (eliminar_del_principal sub s)) \<or>
         snd (aplicar_filtro n pr s) =
           snd (marcar_aplicado n (snd (propagar pr sub (eliminar_del_principal sub s))))"
  by (simp add: aplicar_filtro_no_vacio [OF assms] split: prod.splits sum.splits)

section \<open>Frames outside the store and the history\<close>

text \<open>
  Lines 108, 161 and 271 write on a frame in place. They reach only frames of the store, so a
  frame that is neither in the store nor on the history is never written, whatever is
  called.
\<close>

lemma direcciones_update2:
  assumes "x \<in> set (map snd (AList.update k v (AList.update k' v' al)))"
  shows "x = v \<or> x = v' \<or> x \<in> set (map snd al)"
proof -
  from assms have "x = v \<or> x \<in> set (map snd (AList.update k' v' al))"
    by (rule direcciones_update)
  then show ?thesis
  proof
    assume "x = v"
    then show ?thesis by simp
  next
    assume "x \<in> set (map snd (AList.update k' v' al))"
    then have "x = v' \<or> x \<in> set (map snd al)" by (rule direcciones_update)
    then show ?thesis by blast
  qed
qed

lemma aparte_restaurar_anterior:
  assumes "aparte a s"
  shows "aparte a (snd (restaurar_anterior s)) \<and>
         heap (snd (restaurar_anterior s)) ! a = heap s ! a"
proof (cases "historial_principal s = []")
  case True
  with assms show ?thesis
    by (simp add: restaurar_anterior_def imprimir_def aparte_def direcciones_def)
next
  case False
  then have "last (historial_principal s) \<in> set (historial_principal s)" by simp
  with assms have ne: "a \<noteq> last (historial_principal s)" by (auto simp: aparte_def)
  have "a \<notin> set (map snd (AList.update ''principal'' (last (historial_principal s))
      (subsets s)))"
    using assms ne direcciones_update [of a "''principal''" "last (historial_principal s)"
        "subsets s"]
    by (auto simp: aparte_def direcciones_def)
  moreover have "a \<notin> set (butlast (historial_principal s))"
    using assms by (auto simp: aparte_def dest: in_set_butlastD)
  ultimately show ?thesis
    using assms False
    by (simp add: restaurar_anterior_def imprimir_def Let_def aparte_def direcciones_def)
qed

lemma aparte_restaurar_todo:
  assumes "aparte a s"
  shows "aparte a (snd (restaurar_todo s)) \<and> heap (snd (restaurar_todo s)) ! a = heap s ! a"
  using assms
  by (simp add: restaurar_todo_def imprimir_def Let_def copy_def alloc_def aparte_def
      direcciones_def nth_append)

lemma aparte_filtrar_por_palabra:
  assumes "aparte a s"
  shows "aparte a (snd (filtrar_por_palabra F c p n co cs me up par s)) \<and>
         heap (snd (filtrar_por_palabra F c p n co cs me up par s)) ! a = heap s ! a"
proof -
  let ?t = "snd (filtrar_por_palabra F c p n co cs me up par s)"
  have la: "a < length (heap s)" using assms by (simp add: aparte_def)
  have h: "heap ?t ! a = heap s ! a"
    by (rule nth_take_eq [OF filtrar_por_palabra_campos(1) la])
  have d: "a \<notin> set (direcciones ?t)"
  proof
    assume x: "a \<in> set (direcciones ?t)"
    from subsets_filtrar_por_palabra [of F c p n co cs me up par s]
    show False
    proof
      assume "subsets ?t = subsets s"
      with x assms show False by (simp add: aparte_def direcciones_def)
    next
      assume "map_of (subsets s) n = None \<and> subsets ?t =
        AList.update ''ultimo'' (length (heap s)) (AList.update n (length (heap s)) (subsets s))"
      then have "subsets ?t =
        AList.update ''ultimo'' (length (heap s)) (AList.update n (length (heap s)) (subsets s))"
        by (rule conjunct2)
      then have "direcciones ?t = map snd (AList.update ''ultimo'' (length (heap s))
          (AList.update n (length (heap s)) (subsets s)))"
        unfolding direcciones_def by (rule arg_cong)
      with x have "a \<in> set (map snd (AList.update ''ultimo'' (length (heap s))
          (AList.update n (length (heap s)) (subsets s))))"
        by (simp only:)
      then have "a = length (heap s) \<or> a = length (heap s) \<or> a \<in> set (map snd (subsets s))"
        by (rule direcciones_update2)
      with la assms show False by (simp add: aparte_def direcciones_def)
    qed
  qed
  have "length (heap s) \<le> length (heap ?t)" by (rule filtrar_por_palabra_campos)
  with la have "a < length (heap ?t)" by simp
  with d h assms show ?thesis by (simp add: aparte_def filtrar_por_palabra_campos)
qed

lemma aparte_df_principal: "aparte a (s\<lparr>df_principal := x\<rparr>) \<longleftrightarrow> aparte a s"
  by (simp add: aparte_def direcciones_def)

lemma aparte_filtrar_subset:
  assumes "aparte a s"
  shows "aparte a (snd (filtrar_subset F no c p n co cs me s)) \<and>
         heap (snd (filtrar_subset F no c p n co cs me s)) ! a = heap s ! a"
proof (cases "map_of (subsets s) no")
  case None
  with assms show ?thesis by (simp add: filtrar_subset_None)
next
  case (Some x)
  have "aparte a (s\<lparr>df_principal := x\<rparr>)" using assms by (simp add: aparte_df_principal)
  from aparte_filtrar_por_palabra [OF this, of F c p n co cs me True "Some no"]
  show ?thesis by (simp add: filtrar_subset_Some [OF Some] aparte_df_principal)
qed

lemma aparte_agregar_excluidos:
  assumes "aparte a s"
  shows "aparte a (snd (agregar_excluidos n ws s)) \<and>
         heap (snd (agregar_excluidos n ws s)) ! a = heap s ! a"
proof (cases "map_of (subsets s) n")
  case None
  with assms show ?thesis by (simp add: agregar_excluidos_def)
next
  case (Some x)
  then have "x \<in> set (direcciones s)" by (rule map_of_direcciones)
  with assms have "x \<noteq> a" by (auto simp: aparte_def)
  with assms Some show ?thesis
    by (simp add: agregar_excluidos_def imprimir_def aparte_def direcciones_def
        split: option.splits)
qed

lemma aparte_eliminar_del_principal:
  assumes "aparte a s"
  shows "aparte a (eliminar_del_principal sub s) \<and>
         heap (eliminar_del_principal sub s) ! a = heap s ! a"
proof -
  let ?t = "eliminar_del_principal sub s"
  have la: "a < length (heap s)" using assms by (simp add: aparte_def)
  have h: "heap ?t ! a = heap s ! a"
    by (rule nth_take_eq [OF eliminar_del_principal_campos(3) la])
  have d: "a \<notin> set (direcciones ?t)"
  proof
    assume "a \<in> set (direcciones ?t)"
    then have "a \<in> set (map snd (AList.update ''principal'' (Suc (length (heap s)))
        (subsets s)))"
      by (simp add: direcciones_def eliminar_del_principal_campos)
    then have "a = Suc (length (heap s)) \<or> a \<in> set (map snd (subsets s))"
      by (rule direcciones_update)
    with la assms show False by (simp add: aparte_def direcciones_def)
  qed
  from la d h assms show ?thesis
    by (simp add: aparte_def eliminar_del_principal_campos)
qed

lemma aparte_propagar:
  assumes "aparte a s"
  shows "aparte a (snd (propagar pr sub s)) \<and> heap (snd (propagar pr sub s)) ! a = heap s ! a"
proof -
  let ?t = "snd (propagar pr sub s)"
  have la: "a < length (heap s)" using assms by (simp add: aparte_def)
  have h: "heap ?t ! a = heap s ! a"
    by (rule nth_take_eq [OF propagar_campos(5) la])
  have d: "a \<notin> set (direcciones ?t)"
    using propagar_direcciones [of a pr sub s] la assms by (auto simp: aparte_def)
  have "length (heap s) \<le> length (heap ?t)" by (rule propagar_campos)
  with la have "a < length (heap ?t)" by simp
  with d h assms show ?thesis by (simp add: aparte_def propagar_campos)
qed

lemma aparte_marcar_aplicado:
  assumes "aparte a s"
  shows "aparte a (snd (marcar_aplicado n s)) \<and>
         heap (snd (marcar_aplicado n s)) ! a = heap s ! a"
proof -
  have "a \<notin> set (direcciones s)" using assms by (simp add: aparte_def)
  then have "heap (snd (marcar_aplicado n s)) ! a = heap s ! a"
    by (rule marcar_aplicado_fuera)
  with assms show ?thesis
    by (simp add: aparte_def direcciones_def marcar_aplicado_campos)
qed

lemma aparte_aplicar_filtro:
  assumes "aparte a s"
  shows "aparte a (snd (aplicar_filtro n pr s)) \<and>
         heap (snd (aplicar_filtro n pr s)) ! a = heap s ! a"
proof (cases "map_of (subsets s) n")
  case None
  with assms show ?thesis by (simp add: aplicar_filtro_None)
next
  case (Some sub)
  show ?thesis
  proof (cases "vacio (heap s ! sub)")
    case True
    with Some assms show ?thesis
      by (simp add: aplicar_filtro_vacio aparte_def direcciones_def)
  next
    case False
    let ?t = "eliminar_del_principal sub s"
    let ?u = "snd (propagar pr sub ?t)"
    have t: "aparte a ?t \<and> heap ?t ! a = heap s ! a"
      using assms by (rule aparte_eliminar_del_principal)
    then have u: "aparte a ?u \<and> heap ?u ! a = heap s ! a"
      using aparte_propagar [of a ?t pr sub] by simp
    then have v: "aparte a (snd (marcar_aplicado n ?u)) \<and>
        heap (snd (marcar_aplicado n ?u)) ! a = heap s ! a"
      using aparte_marcar_aplicado [of a ?u n] by simp
    from aplicar_filtro_no_vacio_snd [OF Some False, of pr] u v show ?thesis by auto
  qed
qed

lemma aparte_get_principal:
  assumes "aparte a s"
  shows "aparte a (snd (get_principal s)) \<and> heap (snd (get_principal s)) ! a = heap s ! a"
  using assms
  by (simp add: get_principal_def copy_def alloc_def aparte_def direcciones_def nth_append)

lemma aparte_get_subset:
  assumes "aparte a s"
  shows "aparte a (snd (get_subset n s)) \<and> heap (snd (get_subset n s)) ! a = heap s ! a"
  using assms
  by (simp add: get_subset_def copy_def alloc_def aparte_def direcciones_def nth_append
      split: option.splits)

lemma aparte_ejecutar:
  "aparte a s \<Longrightarrow> aparte a (ejecutar F c s) \<and> heap (ejecutar F c s) ! a = heap s ! a"
  by (cases c)
    (simp_all add: aparte_restaurar_anterior aparte_restaurar_todo aparte_filtrar_por_palabra
      aparte_agregar_excluidos aparte_filtrar_subset aparte_aplicar_filtro
      aparte_get_principal aparte_get_subset)

lemma aparte_correr:
  "aparte a s \<Longrightarrow> aparte a (correr F cs s) \<and> heap (correr F cs s) ! a = heap s ! a"
  unfolding correr_def
proof (induction cs arbitrary: s)
  case Nil
  then show ?case by simp
next
  case (Cons c cs)
  from aparte_ejecutar [OF Cons.prems, of F c]
  have 1: "aparte a (ejecutar F c s)" and 2: "heap (ejecutar F c s) ! a = heap s ! a"
    by simp_all
  from Cons.IH [OF 1] 2 show ?case by simp
qed

section \<open>The original frame and the name \<open>principal\<close>\<close>

text \<open>
  The copy that \<open>__init__\<close> keeps in \<open>df_original\<close> is outside the store and the
  history in every run, and the name \<open>principal\<close> never leaves the store.
\<close>

lemma df_original_aplicar_filtro:
  "df_original (snd (aplicar_filtro n pr s)) = df_original s"
proof (cases "map_of (subsets s) n")
  case None
  then show ?thesis by (simp add: aplicar_filtro_None)
next
  case (Some sub)
  show ?thesis
  proof (cases "vacio (heap s ! sub)")
    case True
    with Some show ?thesis by (simp add: aplicar_filtro_vacio)
  next
    case False
    from aplicar_filtro_no_vacio_snd [OF Some False, of pr] show ?thesis
      by (auto simp: marcar_aplicado_campos propagar_campos eliminar_del_principal_campos)
  qed
qed

lemma df_original_ejecutar: "df_original (ejecutar F c s) = df_original s"
proof (cases c)
  case RestaurarAnterior
  then show ?thesis by (simp add: restaurar_anterior_def imprimir_def Let_def)
next
  case RestaurarTodo
  then show ?thesis
    by (simp add: restaurar_todo_def imprimir_def Let_def copy_def alloc_def)
next
  case (AgregarExcluidos n ws)
  then show ?thesis by (simp add: agregar_excluidos_def imprimir_def split: option.splits)
next
  case GetPrincipal
  then show ?thesis by (simp add: get_principal_def copy_def alloc_def)
next
  case (GetSubset n)
  then show ?thesis by (simp add: get_subset_def copy_def alloc_def split: option.splits)
qed (simp_all add: filtrar_por_palabra_campos filtrar_subset_campos df_original_aplicar_filtro)

lemma df_original_correr: "df_original (correr F cs s) = df_original s"
  unfolding correr_def by (induction cs arbitrary: s) (simp_all add: df_original_ejecutar)

lemma original_correr:
  "df_original (correr F cs (init df col)) = 0 \<and>
   heap (correr F cs (init df col)) ! 0 = copiar df"
proof -
  have "aparte 0 (init df col)" by (simp add: aparte_def init_def direcciones_def)
  from aparte_correr [OF this, of F cs] show ?thesis
    by (simp add: df_original_correr) (simp add: init_def)
qed

lemma principal_aplicar_filtro:
  assumes "map_of (subsets s) ''principal'' \<noteq> None"
  shows "map_of (subsets (snd (aplicar_filtro n pr s))) ''principal'' \<noteq> None"
proof (cases "map_of (subsets s) n")
  case None
  with assms show ?thesis by (simp add: aplicar_filtro_None)
next
  case (Some sub)
  show ?thesis
  proof (cases "vacio (heap s ! sub)")
    case True
    with Some assms show ?thesis by (simp add: aplicar_filtro_vacio)
  next
    case False
    have "map_of (subsets (eliminar_del_principal sub s)) ''principal'' \<noteq> None"
      by (simp add: eliminar_del_principal_campos update_conv')
    then have "map_of (subsets (snd (propagar pr sub (eliminar_del_principal sub s))))
        ''principal'' \<noteq> None"
      by (rule map_of_propagar)
    with aplicar_filtro_no_vacio_snd [OF Some False, of pr] show ?thesis
      by (auto simp: marcar_aplicado_campos)
  qed
qed

lemma principal_filtrar_por_palabra:
  assumes "map_of (subsets s) ''principal'' \<noteq> None"
  shows "map_of (subsets (snd (filtrar_por_palabra F c p n co cs me up par s))) ''principal''
           \<noteq> None"
  using subsets_filtrar_por_palabra [of F c p n co cs me up par s] assms
  by (auto simp: update_conv')

lemma principal_filtrar_subset:
  assumes "map_of (subsets s) ''principal'' \<noteq> None"
  shows "map_of (subsets (snd (filtrar_subset F no c p n co cs me s))) ''principal'' \<noteq> None"
  using subsets_filtrar_subset [of F no c p n co cs me s] assms
  by (auto simp: update_conv')

lemma principal_ejecutar:
  assumes "map_of (subsets s) ''principal'' \<noteq> None"
  shows "map_of (subsets (ejecutar F c s)) ''principal'' \<noteq> None"
proof (cases c)
  case RestaurarAnterior
  with assms show ?thesis
    by (simp add: restaurar_anterior_def imprimir_def Let_def update_conv')
next
  case RestaurarTodo
  then show ?thesis
    by (simp add: restaurar_todo_def imprimir_def Let_def copy_def alloc_def)
next
  case (AgregarExcluidos n ws)
  with assms show ?thesis
    by (simp add: agregar_excluidos_def imprimir_def split: option.splits)
next
  case GetPrincipal
  with assms show ?thesis by (simp add: get_principal_def copy_def alloc_def)
next
  case (GetSubset n)
  with assms show ?thesis
    by (simp add: get_subset_def copy_def alloc_def split: option.splits)
next
  case (FiltrarPorPalabra c p n co cs me up par)
  with assms show ?thesis by (simp add: principal_filtrar_por_palabra)
next
  case (FiltrarSubset no c p n co cs me)
  with assms show ?thesis by (simp add: principal_filtrar_subset)
next
  case (AplicarFiltro n pr)
  with assms show ?thesis by (simp add: principal_aplicar_filtro)
qed

lemma principal_correr:
  "map_of (subsets s) ''principal'' \<noteq> None \<Longrightarrow>
     map_of (subsets (correr F cs s)) ''principal'' \<noteq> None"
  unfolding correr_def
proof (induction cs arbitrary: s)
  case Nil
  then show ?case by simp
next
  case (Cons c cs)
  have "map_of (subsets (ejecutar F c s)) ''principal'' \<noteq> None"
    using Cons.prems by (rule principal_ejecutar)
  then have "map_of (subsets (fold (ejecutar F) cs (ejecutar F c s))) ''principal'' \<noteq> None"
    by (rule Cons.IH)
  then show ?case by simp
qed

section \<open>The history after a deletion\<close>

text \<open>
  A deletion on a frame that line 233 does not find empty appends one snapshot, a copy of the
  principal table that no later step of the call writes on.
\<close>

lemma drop_lines_key_self: "drop_lines_key rs rs k = []"
  by (simp add: drop_lines_key_def filter_empty_conv)

lemma filas_asignar_aplicado_Nil: "filas f = [] \<Longrightarrow> filas (asignar_aplicado f) = []"
  by (simp add: asignar_aplicado_def escribir_columna_def)

lemma eliminar_del_principal_direcciones:
  assumes "x \<in> set (direcciones (eliminar_del_principal sub s))"
  shows "x \<in> set (direcciones s) \<or> x = Suc (length (heap s))"
proof -
  from assms have "x \<in> set (map snd (AList.update ''principal'' (Suc (length (heap s)))
      (subsets s)))"
    by (simp add: direcciones_def eliminar_del_principal_campos)
  then have "x = Suc (length (heap s)) \<or> x \<in> set (map snd (subsets s))"
    by (rule direcciones_update)
  then show ?thesis unfolding direcciones_def by blast
qed

lemma aplicar_filtro_no_vacio_fst:
  "map_of (subsets s) n = Some sub \<Longrightarrow> \<not> vacio (heap s ! sub) \<Longrightarrow>
     aplicar_filtro n pr s =
       (case fst (propagar pr sub (eliminar_del_principal sub s)) of
          Inl e \<Rightarrow> (Inl e, snd (propagar pr sub (eliminar_del_principal sub s)))
        | Inr u \<Rightarrow> marcar_aplicado n (snd (propagar pr sub (eliminar_del_principal sub s))))"
  by (simp add: aplicar_filtro_def split: prod.splits sum.splits)

lemma aplicar_filtro_historial_aux:
  assumes "bien_formado s" and "map_of (subsets s) n = Some sub"
    and "\<not> vacio (heap s ! sub)"
  shows "historial_principal (snd (aplicar_filtro n pr s)) =
           historial_principal s @ [length (heap s)]"
    and "heap (snd (aplicar_filtro n pr s)) ! length (heap s) = copiar (heap s ! df_principal s)"
    and "fst (aplicar_filtro n pr s) =
           (if pr \<and> attr_parent (heap s ! sub) = None \<and>
               ''_parent'' \<in> set (columnas (heap s ! sub))
            then Inl (ValueError ''_parent'') else Inr ())"
proof -
  let ?L = "length (heap s)"
  let ?t = "eliminar_del_principal sub s"
  let ?r = "propagar pr sub ?t"
  let ?u = "snd ?r"
  let ?v = "snd (marcar_aplicado n ?u)"
  have eq: "aplicar_filtro n pr s =
      (case fst ?r of Inl e \<Rightarrow> (Inl e, ?u) | Inr u \<Rightarrow> marcar_aplicado n ?u)"
    using assms(2,3) by (rule aplicar_filtro_no_vacio_fst)
  have ls: "sub < ?L" using assms(1,2) by (rule bien_formado_lookup)
  have dirs: "\<forall>a \<in> set (direcciones s). a < ?L" using assms(1) by (simp add: bien_formado_iff)
  have ts: "heap ?t ! sub = heap s ! sub"
    by (rule nth_take_eq [OF eliminar_del_principal_campos(3) ls])
  have hu: "historial_principal ?u = historial_principal s @ [?L]"
    by (simp add: propagar_campos eliminar_del_principal_campos)
  have "?L < length (heap ?t)" by (simp add: eliminar_del_principal_campos)
  then have "heap ?u ! ?L = heap ?t ! ?L" by (rule nth_take_eq [OF propagar_campos(5)])
  then have fu: "heap ?u ! ?L = copiar (heap s ! df_principal s)"
    by (simp add: eliminar_del_principal_campos)
  have "?L \<notin> set (direcciones ?u)"
  proof
    assume "?L \<in> set (direcciones ?u)"
    then have "?L \<in> set (direcciones ?t) \<or> ?L = Suc (length (heap ?t))"
      by (rule propagar_direcciones)
    then have "?L \<in> set (direcciones ?t)" by (simp add: eliminar_del_principal_campos)
    then have "?L \<in> set (direcciones s) \<or> ?L = Suc ?L"
      by (rule eliminar_del_principal_direcciones)
    with dirs show False by auto
  qed
  then have "heap ?v ! ?L = heap ?u ! ?L" by (rule marcar_aplicado_fuera)
  then have fv: "heap ?v ! ?L = copiar (heap s ! df_principal s)" using fu by simp
  have hv: "historial_principal ?v = historial_principal s @ [?L]"
    using hu by (simp add: marcar_aplicado_campos)
  have "map_of (subsets ?t) n \<noteq> None"
    using assms(2) by (simp add: eliminar_del_principal_campos update_conv')
  then have "map_of (subsets ?u) n \<noteq> None" by (rule map_of_propagar)
  then have mv: "fst (marcar_aplicado n ?u) = Inr ()" by (rule marcar_aplicado_campos)
  have fr: "fst ?r = (if pr \<and> attr_parent (heap s ! sub) = None \<and>
      ''_parent'' \<in> set (columnas (heap s ! sub)) then Inl (ValueError ''_parent'') else Inr ())"
    by (simp add: propagar_fst ts)
  show "historial_principal (snd (aplicar_filtro n pr s)) = historial_principal s @ [?L]"
    and "heap (snd (aplicar_filtro n pr s)) ! ?L = copiar (heap s ! df_principal s)"
    and "fst (aplicar_filtro n pr s) =
           (if pr \<and> attr_parent (heap s ! sub) = None \<and>
               ''_parent'' \<in> set (columnas (heap s ! sub))
            then Inl (ValueError ''_parent'') else Inr ())"
  proof -
    show "historial_principal (snd (aplicar_filtro n pr s)) = historial_principal s @ [?L]"
    proof (cases "fst ?r")
      case (Inl e)
      then have "aplicar_filtro n pr s = (Inl e, ?u)" by (simp add: eq)
      with hu show ?thesis by simp
    next
      case (Inr w)
      then have "aplicar_filtro n pr s = marcar_aplicado n ?u" by (simp add: eq)
      with hv show ?thesis by simp
    qed
    show "heap (snd (aplicar_filtro n pr s)) ! ?L = copiar (heap s ! df_principal s)"
    proof (cases "fst ?r")
      case (Inl e)
      then have "aplicar_filtro n pr s = (Inl e, ?u)" by (simp add: eq)
      with fu show ?thesis by simp
    next
      case (Inr w)
      then have "aplicar_filtro n pr s = marcar_aplicado n ?u" by (simp add: eq)
      with fv show ?thesis by simp
    qed
    show "fst (aplicar_filtro n pr s) =
           (if pr \<and> attr_parent (heap s ! sub) = None \<and>
               ''_parent'' \<in> set (columnas (heap s ! sub))
            then Inl (ValueError ''_parent'') else Inr ())"
    proof (cases "fst ?r")
      case (Inl e)
      then have "aplicar_filtro n pr s = (Inl e, ?u)" by (simp add: eq)
      with Inl fr show ?thesis by simp
    next
      case (Inr w)
      then have "aplicar_filtro n pr s = marcar_aplicado n ?u" by (simp add: eq)
      with Inr fr mv show ?thesis by simp
    qed
  qed
qed

lemma deshacer_bien_formado:
  assumes "bien_formado s" and "map_of (subsets s) n = Some sub"
    and "filas (heap s ! sub) \<noteq> []"
    and "columnas (heap s ! sub) = [] \<longrightarrow>
           historial_principal s = [] \<and>
           filas_subset ''principal'' s = Some (filas_principal s)"
  shows "filas_principal (snd (restaurar_anterior (snd (aplicar_filtro n pr s)))) =
           filas_principal s \<and>
         filas_subset ''principal'' (snd (restaurar_anterior (snd (aplicar_filtro n pr s)))) =
           Some (filas_principal s) \<and>
         historial_principal (snd (restaurar_anterior (snd (aplicar_filtro n pr s)))) =
           historial_principal s"
proof (cases "columnas (heap s ! sub) = []")
  case True
  then have v: "vacio (heap s ! sub)" by (simp add: vacio_def)
  from True assms(4) have h: "historial_principal s = []"
    and a: "filas_subset ''principal'' s = Some (filas_principal s)" by simp_all
  have "snd (restaurar_anterior (snd (aplicar_filtro n pr s))) =
      s\<lparr>salida := salida s @ [SubsetVacio n, NoHayOperaciones]\<rparr>"
    using h by (simp add: aplicar_filtro_vacio [OF assms(2) v] restaurar_anterior_def
        imprimir_def)
  then show ?thesis
    using a h by (simp add: filas_principal_def filas_subset_def split: option.splits)
next
  case False
  with assms(3) have v: "\<not> vacio (heap s ! sub)" by (simp add: vacio_def)
  let ?t = "snd (aplicar_filtro n pr s)"
  have h: "historial_principal ?t = historial_principal s @ [length (heap s)]"
    and f: "heap ?t ! length (heap s) = copiar (heap s ! df_principal s)"
    using assms(1,2) v by (rule aplicar_filtro_historial_aux)+
  show ?thesis
    using f
    by (simp add: restaurar_anterior_def h filas_principal_def filas_subset_def imprimir_def
        Let_def update_conv' copiar_def nuevo_def)
qed

section \<open>The parent after a deletion\<close>

text \<open>
  What \<open>restaurar_anterior\<close> leaves alone, and the rows of the parent after a deletion
  with propagation.
\<close>

lemma restaurar_anterior_marco:
  assumes "historial_principal s \<noteq> []"
  shows "heap (snd (restaurar_anterior s)) = heap s"
    and "df_principal (snd (restaurar_anterior s)) = last (historial_principal s)"
    and "historial_principal (snd (restaurar_anterior s)) = butlast (historial_principal s)"
    and "subsets (snd (restaurar_anterior s)) =
           AList.update ''principal'' (last (historial_principal s)) (subsets s)"
  using assms by (simp_all add: restaurar_anterior_def imprimir_def Let_def)

lemma padre_aplicar_filtro:
  assumes "bien_formado s" and "map_of (subsets s) n = Some sub"
    and "\<not> vacio (heap s ! sub)"
    and "attr_parent (heap s ! sub) = Some (Some pn)" and "pn \<noteq> []"
    and "pn \<noteq> ''principal''" and "map_of (subsets s) pn = Some padre"
  shows "filas_subset pn (snd (aplicar_filtro n True s)) =
           Some (drop_lines_key (filas (heap s ! padre)) (filas (heap s ! sub)) (columna_id s))"
proof -
  let ?L = "length (heap s)"
  let ?t = "eliminar_del_principal sub s"
  let ?u = "eliminar_del_padre pn sub ?t"
  let ?v = "snd (marcar_aplicado n ?u)"
  let ?d = "drop_lines_key (filas (heap s ! padre)) (filas (heap s ! sub)) (columna_id s)"
  have ls: "sub < ?L" using assms(1,2) by (rule bien_formado_lookup)
  have la: "padre < ?L" using assms(1,7) by (rule bien_formado_lookup)
  have ts: "heap ?t ! sub = heap s ! sub"
    by (rule nth_take_eq [OF eliminar_del_principal_campos(3) ls])
  have ta: "heap ?t ! padre = heap s ! padre"
    by (rule nth_take_eq [OF eliminar_del_principal_campos(3) la])
  have pr: "propagar True sub ?t = (Inr (), ?u)"
    using assms(4,5) by (simp add: propagar_def ts)
  have eq: "aplicar_filtro n True s = marcar_aplicado n ?u"
    by (simp add: aplicar_filtro_no_vacio_fst [OF assms(2,3)] pr)
  have mt: "map_of (subsets ?t) pn = Some padre"
    using assms(6,7) by (simp add: eliminar_del_principal_campos update_conv')
  have lt: "padre < length (heap ?t)" "sub < length (heap ?t)"
    using la ls by (simp_all add: eliminar_del_principal_campos)
  note nu = eliminar_del_padre_nuevo [OF mt lt]
  have fu: "filas (heap ?u ! Suc (length (heap ?t))) = ?d"
    using nu(1) by (simp add: ta ts eliminar_del_principal_campos nuevo_def)
  have mu: "map_of (subsets ?u) pn = Some (Suc (length (heap ?t)))" by (rule nu(2))
  have "filas (heap ?v ! Suc (length (heap ?t))) = ?d"
  proof (cases "n = pn")
    case True
    with assms(2,7) have "sub = padre" by simp
    then have d: "?d = []" by (simp add: drop_lines_key_self)
    have "heap ?v ! Suc (length (heap ?t)) = asignar_aplicado (heap ?u ! Suc (length (heap ?t)))"
      using True mu nu(3) by (simp add: marcar_aplicado_def)
    then show ?thesis using fu d by (simp add: filas_asignar_aplicado_Nil)
  next
    case False
    have "map_of (subsets ?u) n = map_of (subsets ?t) n"
      using False mt by (simp add: eliminar_del_padre_campos update_conv')
    moreover have "map_of (subsets ?t) n \<noteq> Some (Suc (length (heap ?t)))"
      using assms(2) ls
      by (simp add: eliminar_del_principal_campos update_conv')
    ultimately have "map_of (subsets ?u) n \<noteq> Some (Suc (length (heap ?t)))" by simp
    then have "heap ?v ! Suc (length (heap ?t)) = heap ?u ! Suc (length (heap ?t))"
      by (rule marcar_aplicado_otro)
    with fu show ?thesis by simp
  qed
  then show ?thesis
    using mu by (simp add: eq filas_subset_def marcar_aplicado_campos)
qed

section \<open>Addresses stay valid\<close>

text \<open>
  Every address that a manager holds is on its heap, after \<open>__init__\<close> and after every
  call.
\<close>

lemma bien_formado_pares:
  "bien_formado s \<longleftrightarrow>
     df_original s < length (heap s) \<and> df_principal s < length (heap s) \<and>
     (\<forall>k a. (k, a) \<in> set (subsets s) \<longrightarrow> a < length (heap s)) \<and>
     (\<forall>a \<in> set (historial_principal s). a < length (heap s))"
  by (auto simp: bien_formado_def direcciones_def list_all_iff)

lemma bf_imprimir: "bien_formado (imprimir m s) \<longleftrightarrow> bien_formado s"
  by (simp add: bien_formado_pares imprimir_def)

lemma bf_init: "bien_formado (init df col)"
  by (simp add: bien_formado_pares init_def)

lemma bf_restaurar_anterior: "bien_formado s \<Longrightarrow> bien_formado (snd (restaurar_anterior s))"
  by (auto simp: restaurar_anterior_def bien_formado_pares imprimir_def Let_def
      dest!: snd_update_cases in_set_butlastD)

lemma bf_restaurar_todo: "bien_formado s \<Longrightarrow> bien_formado (snd (restaurar_todo s))"
  by (simp add: restaurar_todo_def bien_formado_pares imprimir_def Let_def
      copy_def alloc_def)

lemma bf_filtrar_por_palabra:
  assumes "bien_formado s"
  shows "bien_formado (snd (filtrar_por_palabra F c p n co cs me up par s))"
  using filtrar_por_palabra_casos [of F c p n co cs me up par s] assms
  by (auto simp: bien_formado_pares less_SucI dest!: snd_update_cases)

lemma bf_df_principal:
  "bien_formado s \<Longrightarrow> a < length (heap s) \<Longrightarrow> bien_formado (s\<lparr>df_principal := a\<rparr>)"
  by (simp add: bien_formado_pares)

lemma bf_filtrar_subset:
  assumes "bien_formado s"
  shows "bien_formado (snd (filtrar_subset F no c p n co cs me s))"
proof (cases "map_of (subsets s) no")
  case None
  with assms show ?thesis by (simp add: filtrar_subset_None)
next
  case (Some a)
  let ?t = "snd (filtrar_por_palabra F c p n co cs me True (Some no) (s\<lparr>df_principal := a\<rparr>))"
  have a: "a < length (heap s)" using assms Some by (rule bien_formado_lookup)
  then have "bien_formado ?t" using assms by (simp add: bf_filtrar_por_palabra bf_df_principal)
  moreover have "length (heap s) \<le> length (heap ?t)"
    using filtrar_por_palabra_campos(5) [of "s\<lparr>df_principal := a\<rparr>" F c p n co cs me True "Some no"]
    by simp
  moreover have "df_principal s < length (heap s)" using assms by (simp add: bien_formado_iff)
  ultimately have "bien_formado (?t\<lparr>df_principal := df_principal s\<rparr>)"
    by (simp add: bf_df_principal)
  with Some show ?thesis by (simp add: filtrar_subset_Some)
qed

lemma bf_agregar_excluidos:
  "bien_formado s \<Longrightarrow> bien_formado (snd (agregar_excluidos n ws s))"
  by (simp add: agregar_excluidos_def bien_formado_pares imprimir_def Let_def
      split: option.splits)

lemma bf_eliminar_del_principal:
  "bien_formado s \<Longrightarrow> bien_formado (eliminar_del_principal sub s)"
  by (auto simp: eliminar_del_principal_def bien_formado_pares imprimir_def Let_def
      copy_def alloc_def less_SucI dest!: snd_update_cases)

lemma bf_eliminar_del_padre:
  "bien_formado s \<Longrightarrow> bien_formado (eliminar_del_padre pn sub s)"
  by (auto simp: eliminar_del_padre_def bien_formado_pares imprimir_def Let_def
      copy_def alloc_def less_SucI split: option.splits dest!: snd_update_cases)

lemma bf_propagar: "bien_formado s \<Longrightarrow> bien_formado (snd (propagar pr sub s))"
  using propagar_casos [of pr sub s] by (auto simp: bf_eliminar_del_padre)

lemma bf_marcar_aplicado: "bien_formado s \<Longrightarrow> bien_formado (snd (marcar_aplicado n s))"
  by (simp add: marcar_aplicado_def bien_formado_pares split: option.splits)

lemma bf_aplicar_filtro:
  assumes "bien_formado s"
  shows "bien_formado (snd (aplicar_filtro n pr s))"
proof (cases "map_of (subsets s) n")
  case None
  with assms show ?thesis by (simp add: aplicar_filtro_None)
next
  case (Some sub)
  show ?thesis
  proof (cases "vacio (heap s ! sub)")
    case True
    with Some assms show ?thesis
      by (simp add: aplicar_filtro_vacio bien_formado_pares)
  next
    case False
    have "bien_formado (snd (propagar pr sub (eliminar_del_principal sub s)))"
      using assms by (simp add: bf_propagar bf_eliminar_del_principal)
    then show ?thesis
      using aplicar_filtro_no_vacio_snd [OF Some False, of pr]
      by (auto simp: bf_marcar_aplicado)
  qed
qed

lemma bf_get_principal: "bien_formado s \<Longrightarrow> bien_formado (snd (get_principal s))"
  by (auto simp: get_principal_def copy_def alloc_def bien_formado_pares
      less_SucI)

lemma bf_get_subset: "bien_formado s \<Longrightarrow> bien_formado (snd (get_subset n s))"
  by (auto simp: get_subset_def copy_def alloc_def bien_formado_pares
      less_SucI split: option.splits)

lemma bf_ejecutar: "bien_formado s \<Longrightarrow> bien_formado (ejecutar F l s)"
  by (cases l)
    (simp_all add: bf_restaurar_anterior bf_restaurar_todo bf_filtrar_por_palabra
      bf_filtrar_subset bf_agregar_excluidos bf_aplicar_filtro bf_get_principal bf_get_subset)

lemma bf_correr: "bien_formado s \<Longrightarrow> bien_formado (correr F ll s)"
  unfolding correr_def by (induction ll arbitrary: s) (simp_all add: bf_ejecutar)

lemma bien_formado_correr: "bien_formado (correr F ll (init df col))"
  by (rule bf_correr [OF bf_init])

section \<open>The columns of the frames\<close>

text \<open>
  Every frame of a manager has the columns of the table given to \<open>__init__\<close>: copies,
  results of \<open>drop_lines_key\<close> and results of the filter keep the columns of the frame
  they are made from, and the writes in place add no column.
\<close>

lemma columnas_iguales_iff:
  "columnas_iguales cs s \<longleftrightarrow> (\<forall>f \<in> set (heap s). columnas f = cs)"
  by (simp add: columnas_iguales_def list_all_iff)

lemma columnas_iguales_nth:
  "columnas_iguales cs s \<Longrightarrow> a < length (heap s) \<Longrightarrow> columnas (heap s ! a) = cs"
  by (simp add: columnas_iguales_iff)

lemma columnas_asignar_parent: "columnas (asignar_parent par f) = columnas f"
  by (simp add: asignar_parent_def escribir_columna_def)

lemma columnas_asignar_aplicado: "columnas (asignar_aplicado f) = columnas f"
  by (simp add: asignar_aplicado_def escribir_columna_def)

lemma ci_init: "columnas_iguales (columnas df) (init df col)"
  by (simp add: columnas_iguales_iff init_def copiar_def nuevo_def)

lemma ci_restaurar_anterior:
  "columnas_iguales cs s \<Longrightarrow> columnas_iguales cs (snd (restaurar_anterior s))"
  by (simp add: columnas_iguales_iff restaurar_anterior_def imprimir_def Let_def)

lemma ci_restaurar_todo:
  "bien_formado s \<Longrightarrow> columnas_iguales cs s \<Longrightarrow> columnas_iguales cs (snd (restaurar_todo s))"
  by (simp add: columnas_iguales_iff restaurar_todo_def imprimir_def Let_def copy_def alloc_def
      copiar_def nuevo_def bien_formado_pares)

lemma origen_valido:
  assumes "bien_formado s"
  shows "(if up then df_principal s
          else (case map_of (subsets s) ''ultimo'' of Some u \<Rightarrow> u
                | None \<Rightarrow> df_principal s)) < length (heap s)"
  using assms bien_formado_lookup [OF assms, of "''ultimo''"]
  by (simp add: bien_formado_pares split: option.splits)

lemma ci_filtrar_por_palabra:
  assumes "bien_formado s" and "columnas_iguales cs' s"
  shows "columnas_iguales cs' (snd (filtrar_por_palabra F c p n co cs me up par s))"
  using filtrar_por_palabra_casos [of F c p n co cs me up par s] assms(2)
    columnas_iguales_nth [OF assms(2) origen_valido [OF assms(1), of up]]
  by (auto simp: columnas_iguales_iff columnas_asignar_parent nuevo_def)

lemma ci_filtrar_subset:
  assumes "bien_formado s" and "columnas_iguales cs' s"
  shows "columnas_iguales cs' (snd (filtrar_subset F no c p n co cs me s))"
proof (cases "map_of (subsets s) no")
  case None
  with assms show ?thesis by (simp add: filtrar_subset_None)
next
  case (Some a)
  have a: "a < length (heap s)" using assms(1) Some by (rule bien_formado_lookup)
  have "bien_formado (s\<lparr>df_principal := a\<rparr>)" using assms(1) a by (rule bf_df_principal)
  moreover have "columnas_iguales cs' (s\<lparr>df_principal := a\<rparr>)"
    using assms(2) by (simp add: columnas_iguales_iff)
  ultimately have "columnas_iguales cs'
      (snd (filtrar_por_palabra F c p n co cs me True (Some no) (s\<lparr>df_principal := a\<rparr>)))"
    by (rule ci_filtrar_por_palabra)
  then show ?thesis by (simp add: filtrar_subset_Some [OF Some] columnas_iguales_iff)
qed

lemma set_list_update_cases: "x \<in> set (list_update xs i v) \<Longrightarrow> x = v \<or> x \<in> set xs"
  using set_update_subset_insert [of xs i v] by auto

lemma ci_agregar_excluidos:
  assumes "bien_formado s" and "columnas_iguales cs s"
  shows "columnas_iguales cs (snd (agregar_excluidos n ws s))"
proof (cases "map_of (subsets s) n")
  case None
  with assms show ?thesis by (simp add: agregar_excluidos_def)
next
  case (Some a)
  have a: "columnas (heap s ! a) = cs"
    using assms(2) bien_formado_lookup [OF assms(1) Some] by (rule columnas_iguales_nth)
  show ?thesis
    using assms(2) Some a
    by (auto simp: agregar_excluidos_def columnas_iguales_iff imprimir_def Let_def
        split: option.splits dest!: set_list_update_cases)
qed

lemma ci_eliminar_del_principal:
  assumes "bien_formado s" and "columnas_iguales cs s"
  shows "columnas_iguales cs (eliminar_del_principal sub s)"
proof -
  have "columnas (heap s ! df_principal s) = cs"
    using assms by (simp add: columnas_iguales_nth bien_formado_pares)
  then show ?thesis
    using assms(1,2)
    by (simp add: eliminar_del_principal_def columnas_iguales_iff imprimir_def Let_def copy_def
        alloc_def copiar_def nuevo_def nth_append bien_formado_pares)
qed

lemma ci_eliminar_del_padre:
  assumes "bien_formado s" and "columnas_iguales cs s"
  shows "columnas_iguales cs (eliminar_del_padre pn sub s)"
proof (cases "map_of (subsets s) pn")
  case None
  with assms(2) show ?thesis
    by (simp add: eliminar_del_padre_def columnas_iguales_iff imprimir_def Let_def)
next
  case (Some padre)
  have l: "padre < length (heap s)" using assms(1) Some by (rule bien_formado_lookup)
  have "columnas (heap s ! padre) = cs" using assms(2) l by (rule columnas_iguales_nth)
  then show ?thesis
    using assms(2) Some l
    by (simp add: eliminar_del_padre_def columnas_iguales_iff imprimir_def Let_def copy_def
        alloc_def copiar_def nuevo_def nth_append)
qed

lemma ci_propagar:
  "bien_formado s \<Longrightarrow> columnas_iguales cs s \<Longrightarrow> columnas_iguales cs (snd (propagar pr sub s))"
  using propagar_casos [of pr sub s] by (auto simp: ci_eliminar_del_padre)

lemma ci_marcar_aplicado:
  assumes "bien_formado s" and "columnas_iguales cs s"
  shows "columnas_iguales cs (snd (marcar_aplicado n s))"
proof (cases "map_of (subsets s) n")
  case None
  with assms show ?thesis by (simp add: marcar_aplicado_def)
next
  case (Some a)
  have a: "columnas (heap s ! a) = cs"
    using assms(2) bien_formado_lookup [OF assms(1) Some] by (rule columnas_iguales_nth)
  show ?thesis
    using assms(2) Some a
    by (auto simp: marcar_aplicado_def columnas_iguales_iff columnas_asignar_aplicado
        dest!: set_list_update_cases)
qed

lemma ci_aplicar_filtro:
  assumes "bien_formado s" and "columnas_iguales cs s"
  shows "columnas_iguales cs (snd (aplicar_filtro n pr s))"
proof (cases "map_of (subsets s) n")
  case None
  with assms show ?thesis by (simp add: aplicar_filtro_None)
next
  case (Some sub)
  show ?thesis
  proof (cases "vacio (heap s ! sub)")
    case True
    with Some assms show ?thesis by (simp add: aplicar_filtro_vacio columnas_iguales_iff)
  next
    case False
    let ?t = "snd (propagar pr sub (eliminar_del_principal sub s))"
    have b: "bien_formado ?t" using assms(1) by (simp add: bf_propagar bf_eliminar_del_principal)
    have c: "columnas_iguales cs ?t"
      using assms by (simp add: ci_propagar ci_eliminar_del_principal bf_eliminar_del_principal)
    from b c have "columnas_iguales cs (snd (marcar_aplicado n ?t))" by (rule ci_marcar_aplicado)
    with c show ?thesis
      using aplicar_filtro_no_vacio_snd [OF Some False, of pr] by auto
  qed
qed

lemma ci_get_principal:
  "bien_formado s \<Longrightarrow> columnas_iguales cs s \<Longrightarrow> columnas_iguales cs (snd (get_principal s))"
  by (simp add: get_principal_def columnas_iguales_iff copy_def alloc_def copiar_def nuevo_def
      bien_formado_pares)

lemma ci_get_subset:
  assumes "bien_formado s" and "columnas_iguales cs s"
  shows "columnas_iguales cs (snd (get_subset n s))"
proof (cases "map_of (subsets s) n")
  case None
  with assms show ?thesis by (simp add: get_subset_def)
next
  case (Some a)
  have "columnas (heap s ! a) = cs"
    using assms(2) bien_formado_lookup [OF assms(1) Some] by (rule columnas_iguales_nth)
  with assms(2) Some show ?thesis
    by (simp add: get_subset_def columnas_iguales_iff copy_def alloc_def copiar_def nuevo_def)
qed

lemma ci_ejecutar:
  "bien_formado s \<Longrightarrow> columnas_iguales cs s \<Longrightarrow> columnas_iguales cs (ejecutar F l s)"
  by (cases l)
    (simp_all add: ci_restaurar_anterior ci_restaurar_todo ci_filtrar_por_palabra
      ci_filtrar_subset ci_agregar_excluidos ci_aplicar_filtro ci_get_principal ci_get_subset)

lemma ci_correr:
  "bien_formado s \<Longrightarrow> columnas_iguales cs s \<Longrightarrow> columnas_iguales cs (correr F ll s)"
  unfolding correr_def
  by (induction ll arbitrary: s) (simp_all add: ci_ejecutar bf_ejecutar)

lemma columnas_correr:
  assumes "a < length (heap (correr F ll (init df col)))"
  shows "columnas (heap (correr F ll (init df col)) ! a) = columnas df"
proof -
  have "columnas_iguales (columnas df) (correr F ll (init df col))"
    by (rule ci_correr [OF bf_init ci_init])
  then show ?thesis using assms by (rule columnas_iguales_nth)
qed

section \<open>Managers over a table without columns\<close>

text \<open>
  When the table given to \<open>__init__\<close> has no column, line 233 finds every frame empty:
  no deletion happens, the history stays empty and the store entry \<open>principal\<close> is
  the principal table.
\<close>

lemma aplicar_filtro_sin_columnas:
  assumes "bien_formado s" and "columnas_iguales [] s"
  shows "snd (aplicar_filtro n pr s) = s \<or>
         snd (aplicar_filtro n pr s) = s\<lparr>salida := salida s @ [SubsetVacio n]\<rparr>"
proof (cases "map_of (subsets s) n")
  case None
  then show ?thesis by (simp add: aplicar_filtro_None)
next
  case (Some sub)
  have "columnas (heap s ! sub) = []"
    using assms(2) bien_formado_lookup [OF assms(1) Some] by (rule columnas_iguales_nth)
  then have "vacio (heap s ! sub)" by (simp add: vacio_def)
  with Some show ?thesis by (simp add: aplicar_filtro_vacio)
qed

lemma sc_restaurar_anterior:
  assumes "historial_principal s = []"
    and "map_of (subsets s) ''principal'' = Some (df_principal s)"
  shows "historial_principal (snd (restaurar_anterior s)) = [] \<and>
         map_of (subsets (snd (restaurar_anterior s))) ''principal'' =
           Some (df_principal (snd (restaurar_anterior s)))"
  using assms by (simp add: restaurar_anterior_def imprimir_def)

lemma sc_restaurar_todo:
  "historial_principal (snd (restaurar_todo s)) = [] \<and>
   map_of (subsets (snd (restaurar_todo s))) ''principal'' =
     Some (df_principal (snd (restaurar_todo s)))"
  by (simp add: restaurar_todo_def imprimir_def Let_def copy_def alloc_def)

lemma sc_filtrar_por_palabra:
  assumes "historial_principal s = []"
    and "map_of (subsets s) ''principal'' = Some (df_principal s)"
  shows "historial_principal (snd (filtrar_por_palabra F c p n co cs me up par s)) = [] \<and>
         map_of (subsets (snd (filtrar_por_palabra F c p n co cs me up par s))) ''principal'' =
           Some (df_principal (snd (filtrar_por_palabra F c p n co cs me up par s)))"
  using assms subsets_filtrar_por_palabra [of F c p n co cs me up par s]
  by (auto simp: filtrar_por_palabra_campos update_conv')

lemma sc_filtrar_subset:
  assumes "historial_principal s = []"
    and "map_of (subsets s) ''principal'' = Some (df_principal s)"
  shows "historial_principal (snd (filtrar_subset F no c p n co cs me s)) = [] \<and>
         map_of (subsets (snd (filtrar_subset F no c p n co cs me s))) ''principal'' =
           Some (df_principal (snd (filtrar_subset F no c p n co cs me s)))"
  using assms subsets_filtrar_subset [of F no c p n co cs me s]
  by (auto simp: filtrar_subset_campos update_conv')

lemma sc_agregar_excluidos:
  assumes "historial_principal s = []"
    and "map_of (subsets s) ''principal'' = Some (df_principal s)"
  shows "historial_principal (snd (agregar_excluidos n ws s)) = [] \<and>
         map_of (subsets (snd (agregar_excluidos n ws s))) ''principal'' =
           Some (df_principal (snd (agregar_excluidos n ws s)))"
  using assms
  by (simp add: agregar_excluidos_def imprimir_def Let_def split: option.splits)

lemma sc_aplicar_filtro:
  assumes "bien_formado s" and "columnas_iguales [] s"
    and "historial_principal s = []"
    and "map_of (subsets s) ''principal'' = Some (df_principal s)"
  shows "historial_principal (snd (aplicar_filtro n pr s)) = [] \<and>
         map_of (subsets (snd (aplicar_filtro n pr s))) ''principal'' =
           Some (df_principal (snd (aplicar_filtro n pr s)))"
  using aplicar_filtro_sin_columnas [OF assms(1,2), of n pr] assms(3,4) by auto

lemma sc_get_principal:
  assumes "historial_principal s = []"
    and "map_of (subsets s) ''principal'' = Some (df_principal s)"
  shows "historial_principal (snd (get_principal s)) = [] \<and>
         map_of (subsets (snd (get_principal s))) ''principal'' =
           Some (df_principal (snd (get_principal s)))"
  using assms by (simp add: get_principal_def copy_def alloc_def)

lemma sc_get_subset:
  assumes "historial_principal s = []"
    and "map_of (subsets s) ''principal'' = Some (df_principal s)"
  shows "historial_principal (snd (get_subset n s)) = [] \<and>
         map_of (subsets (snd (get_subset n s))) ''principal'' =
           Some (df_principal (snd (get_subset n s)))"
  using assms by (simp add: get_subset_def copy_def alloc_def split: option.splits)

lemma sc_ejecutar:
  assumes "bien_formado s" and "columnas_iguales [] s"
    and "historial_principal s = []"
    and "map_of (subsets s) ''principal'' = Some (df_principal s)"
  shows "historial_principal (ejecutar F l s) = [] \<and>
         map_of (subsets (ejecutar F l s)) ''principal'' = Some (df_principal (ejecutar F l s))"
proof (cases l)
  case RestaurarAnterior
  then show ?thesis using sc_restaurar_anterior [OF assms(3,4)] by simp
next
  case RestaurarTodo
  then show ?thesis using sc_restaurar_todo [of s] by simp
next
  case (FiltrarPorPalabra c p n co cs me up par)
  then show ?thesis using sc_filtrar_por_palabra [OF assms(3,4)] by simp
next
  case (AgregarExcluidos n ws)
  then show ?thesis using sc_agregar_excluidos [OF assms(3,4)] by simp
next
  case (FiltrarSubset no c p n co cs me)
  then show ?thesis using sc_filtrar_subset [OF assms(3,4)] by simp
next
  case (AplicarFiltro n pr)
  then show ?thesis using sc_aplicar_filtro [OF assms] by simp
next
  case GetPrincipal
  then show ?thesis using sc_get_principal [OF assms(3,4)] by simp
next
  case (GetSubset n)
  then show ?thesis using sc_get_subset [OF assms(3,4)] by simp
qed

lemma sc_correr:
  assumes "bien_formado s" and "columnas_iguales [] s"
    and "historial_principal s = []"
    and "map_of (subsets s) ''principal'' = Some (df_principal s)"
  shows "historial_principal (correr F ll s) = [] \<and>
         map_of (subsets (correr F ll s)) ''principal'' = Some (df_principal (correr F ll s))"
  using assms unfolding correr_def
proof (induction ll arbitrary: s)
  case Nil
  then show ?case by simp
next
  case (Cons l ll)
  have "historial_principal (ejecutar F l s) = [] \<and>
        map_of (subsets (ejecutar F l s)) ''principal'' = Some (df_principal (ejecutar F l s))"
    using Cons.prems by (rule sc_ejecutar)
  then show ?case
    using Cons.IH [of "ejecutar F l s"] Cons.prems(1,2)
    by (simp add: bf_ejecutar ci_ejecutar)
qed

lemma sin_columnas_correr:
  assumes "columnas df = []"
  shows "historial_principal (correr F ll (init df col)) = [] \<and>
         filas_subset ''principal'' (correr F ll (init df col)) =
           Some (filas_principal (correr F ll (init df col)))"
proof -
  have "columnas_iguales [] (init df col)" using ci_init [of df col] assms by simp
  then have "historial_principal (correr F ll (init df col)) = [] \<and>
      map_of (subsets (correr F ll (init df col))) ''principal'' =
        Some (df_principal (correr F ll (init df col)))"
    by (rule sc_correr [OF bf_init]) (simp_all add: init_def)
  then show ?thesis by (simp add: filas_subset_def filas_principal_def)
qed

section \<open>The example managers\<close>

text \<open>
  The example managers as explicit values, each frame written as \<open>nuevo\<close> of its
  columns and rows with the attributes that were assigned to it.
\<close>

lemmas crear_defs = filtrar_subset_def filtrar_por_palabra_def filtro_exacto_def alloc_def
  imprimir_def len_def Let_def nuevo_def asignar_parent_def cols3_def fila1_def fila2_def
  fila3_def

lemmas aplicar_defs = aplicar_filtro_def eliminar_del_principal_def propagar_def
  eliminar_del_padre_def marcar_aplicado_def asignar_aplicado_def vacio_def drop_lines_key_def
  copy_def copiar_def alloc_def imprimir_def len_def Let_def nuevo_def cols3_def fila1_def
  fila2_def fila3_def

lemma gestor0_val:
  "gestor0 = \<lparr>df_original = 0, df_principal = 1, columna_id = ''id'',
     subsets = [(''principal'', 1)], historial_principal = [],
     heap = [nuevo cols3 [fila1, fila2, fila3], nuevo cols3 [fila1, fila2, fila3]],
     salida = []\<rparr>"
  by (simp add: gestor0_def init_def tabla3_def copiar_def nuevo_def)

lemma gestorA_val:
  "gestorA = \<lparr>df_original = 0, df_principal = 1, columna_id = ''id'',
     subsets = [(''principal'', 1), (''A'', 2), (''ultimo'', 2)], historial_principal = [],
     heap = [nuevo cols3 [fila1, fila2, fila3], nuevo cols3 [fila1, fila2, fila3],
             (nuevo cols3 [fila1, fila3])\<lparr>attr_parent := Some None\<rparr>],
     salida = [SubsetCreado ''A'' 2]\<rparr>"
  by (simp add: gestorA_def gestor0_val crear_defs)

lemma gestorB_val:
  "gestorB = \<lparr>df_original = 0, df_principal = 1, columna_id = ''id'',
     subsets = [(''principal'', 1), (''A'', 2), (''ultimo'', 3), (''B'', 3)],
     historial_principal = [],
     heap = [nuevo cols3 [fila1, fila2, fila3], nuevo cols3 [fila1, fila2, fila3],
             (nuevo cols3 [fila1, fila3])\<lparr>attr_parent := Some None\<rparr>,
             (nuevo cols3 [fila3])\<lparr>attr_parent := Some (Some ''A'')\<rparr>],
     salida = [SubsetCreado ''A'' 2, SubsetCreado ''B'' 1, HijoDe ''A'']\<rparr>"
  by (simp add: gestorB_def gestorA_val crear_defs)

lemma gestorC_val:
  "gestorC = \<lparr>df_original = 0, df_principal = 5, columna_id = ''id'',
     subsets = [(''principal'', 5), (''A'', 7), (''ultimo'', 3), (''B'', 3)],
     historial_principal = [4],
     heap = [nuevo cols3 [fila1, fila2, fila3], nuevo cols3 [fila1, fila2, fila3],
             (nuevo cols3 [fila1, fila3])\<lparr>attr_parent := Some None\<rparr>,
             (nuevo cols3 [fila3])\<lparr>attr_parent := Some (Some ''A''), attr_aplicado := True\<rparr>,
             nuevo cols3 [fila1, fila2, fila3], nuevo cols3 [fila1, fila2],
             nuevo cols3 [fila1, fila3], nuevo cols3 [fila1]],
     salida = [SubsetCreado ''A'' 2, SubsetCreado ''B'' 1, HijoDe ''A'', Eliminadas 1 2,
               EliminadasPadre 1 ''A'' 1]\<rparr>"
  by (simp add: gestorC_def gestorB_val aplicar_defs)

lemma gestorU_val:
  "gestorU = \<lparr>df_original = 0, df_principal = 1, columna_id = ''id'',
     subsets = [(''principal'', 1), (''A'', 2), (''ultimo'', 3), (''B'', 3)],
     historial_principal = [],
     heap = [nuevo cols3 [fila1, fila2, fila3], nuevo cols3 [fila1, fila2, fila3],
             (nuevo cols3 [fila1, fila3])\<lparr>attr_parent := Some None\<rparr>,
             (nuevo cols3 [fila3])\<lparr>attr_parent := Some (Some ''ultimo'')\<rparr>],
     salida = [SubsetCreado ''A'' 2, SubsetCreado ''B'' 1, HijoDe ''ultimo'']\<rparr>"
  by (simp add: gestorU_def gestorA_val crear_defs)

lemma gestorY_val:
  "gestorY = \<lparr>df_original = 0, df_principal = 4, columna_id = ''id'',
     subsets = [(''principal'', 6), (''Y'', 2), (''ultimo'', 2)],
     historial_principal = [3],
     heap = [nuevo cols3 [fila1, fila2, fila3], nuevo cols3 [fila1, fila2, fila3],
             (nuevo cols3 [fila2, fila3])\<lparr>attr_parent := Some (Some ''principal''),
                                            attr_aplicado := True\<rparr>,
             nuevo cols3 [fila1, fila2, fila3], nuevo cols3 [fila1], nuevo cols3 [fila1],
             nuevo cols3 [fila1]],
     salida = [SubsetCreado ''Y'' 2, HijoDe ''principal'', Eliminadas 2 1,
               SinEliminarPadre ''principal'']\<rparr>"
  by (simp add: gestorY_def correr_def gestor0_val [unfolded gestor0_def] crear_defs aplicar_defs)

lemma gestorN_val:
  "gestorN = \<lparr>df_original = 0, df_principal = 6, columna_id = ''id'',
     subsets = [(''principal'', 6), (''A'', 2), (''ultimo'', 4), (''B'', 8), (''C'', 4)],
     historial_principal = [5],
     heap = [nuevo cols3 [fila1, fila2, fila3], nuevo cols3 [fila1, fila2, fila3],
             (nuevo cols3 [fila1, fila3])\<lparr>attr_parent := Some None\<rparr>,
             (nuevo cols3 [fila1, fila3])\<lparr>attr_parent := Some (Some ''A'')\<rparr>,
             (nuevo cols3 [fila3])\<lparr>attr_parent := Some (Some ''B''), attr_aplicado := True\<rparr>,
             nuevo cols3 [fila1, fila2, fila3], nuevo cols3 [fila1, fila2],
             nuevo cols3 [fila1, fila3], nuevo cols3 [fila1]],
     salida = [SubsetCreado ''A'' 2, SubsetCreado ''B'' 2, HijoDe ''A'', SubsetCreado ''C'' 1,
               HijoDe ''B'', Eliminadas 1 2, EliminadasPadre 1 ''B'' 1]\<rparr>"
  by (simp add: gestorN_def correr_def gestorA_val crear_defs aplicar_defs)

lemma gestorS_val:
  "gestorS = \<lparr>df_original = 0, df_principal = 1, columna_id = ''id'',
     subsets = [(''principal'', 1)], historial_principal = [],
     heap = [nuevo [] [fila_vacia, fila_vacia, fila_vacia],
             nuevo [] [fila_vacia, fila_vacia, fila_vacia]], salida = []\<rparr>"
  by (simp add: gestorS_def init_def tabla_sin_columnas_def copiar_def nuevo_def)

lemma gestorC_correr:
  "correr filtro_exacto
     [FiltrarPorPalabra ''descripcion'' [''x''] ''A'' ''OR'' False True True None,
      FiltrarSubset ''A'' ''tipo'' [''y''] ''B'' ''OR'' False True,
      AplicarFiltro ''B'' True] (init tabla3 ''id'') = gestorC"
  by (simp add: correr_def gestorC_def gestorB_def gestorA_def gestor0_def)

lemma gestorE_val:
  "gestorE = \<lparr>df_original = 0, df_principal = 1, columna_id = ''id'',
     subsets = [(''principal'', 1), (''E'', 2), (''ultimo'', 2)], historial_principal = [],
     heap = [nuevo cols3 [fila1, fila2, fila3], nuevo cols3 [fila1, fila2, fila3],
             (nuevo cols3 [])\<lparr>attr_parent := Some None\<rparr>],
     salida = [SubsetCreado ''E'' 0]\<rparr>"
  by (simp add: gestorE_def gestor0_val crear_defs)

lemma gestorP_val:
  "gestorP = \<lparr>df_original = 0, df_principal = 1, columna_id = ''id'',
     subsets = [(''principal'', 1), (''A'', 2), (''ultimo'', 2)], historial_principal = [],
     heap = [nuevo colsP [filaP1, filaP2], nuevo colsP [filaP1, filaP2],
             nuevo colsP [filaPA]],
     salida = [SubsetCreado ''A'' 1]\<rparr>"
  by (simp add: gestorP_def init_def tablaP_def copiar_def filtrar_por_palabra_def
      filtro_exacto_def alloc_def imprimir_def len_def Let_def nuevo_def asignar_parent_def
      escribir_columna_def colsP_def filaP1_def filaP2_def filaPA_def)

lemma gestorB_correr:
  "correr filtro_exacto
     [FiltrarPorPalabra ''descripcion'' [''x''] ''A'' ''OR'' False True True None,
      FiltrarSubset ''A'' ''tipo'' [''y''] ''B'' ''OR'' False True] (init tabla3 ''id'') = gestorB"
  by (simp add: correr_def gestorB_def gestorA_def gestor0_def)

section \<open>Attributes, columns and the parent link\<close>

text \<open>
  In the table \<open>tablaP\<close> the names \<open>_parent\<close> and \<open>_palabras_excluidas\<close> are
  data columns. Line 108 then overwrites the column \<open>_parent\<close> of the new subset and
  sets no attribute; a deletion with propagation pushes the snapshot, replaces the principal
  table and raises \<open>ValueError\<close> at the truth test of line 252; without propagation the
  deletion returns; and \<open>agregar_excluidos\<close> raises \<open>AttributeError\<close> at line 161.
\<close>

lemma columna_con_nombre_de_atributo:
  "filas_subset ''A'' gestorP = Some [filaPA] \<and>
   attr_parent (heap gestorP ! 2) = None \<and>
   fst (aplicar_filtro ''A'' True gestorP) = Inl (ValueError ''_parent'') \<and>
   historial_principal (snd (aplicar_filtro ''A'' True gestorP)) = [3] \<and>
   filas_principal (snd (aplicar_filtro ''A'' True gestorP)) = [filaP2] \<and>
   fst (aplicar_filtro ''A'' False gestorP) = Inr () \<and>
   agregar_excluidos ''A'' [''w''] gestorP = (Inl (AttributeError ''extend''), gestorP)"
  by (simp add: gestorP_val filas_subset_def filas_principal_def aplicar_filtro_def
      eliminar_del_principal_def propagar_def marcar_aplicado_def asignar_aplicado_def vacio_def
      drop_lines_key_def copy_def copiar_def alloc_def imprimir_def len_def Let_def nuevo_def
      colsP_def filaP1_def filaP2_def filaPA_def agregar_excluidos_def)

text \<open>
  Line 252 tests the parent name for truth: to a parent named by the empty string nothing is
  propagated.
\<close>

lemma propagar_nombre_vacio:
  "attr_parent (heap s ! sub) = Some (Some []) \<Longrightarrow> propagar pr sub s = (Inr (), s)"
  by (simp add: propagar_def)

text \<open>
  The attribute \<open>_parent\<close> is on the frame, not on the name. In \<open>gestorN\<close> the subset
  \<open>B\<close> was filtered from \<open>A\<close> by \<open>filtrar_subset\<close>, and the deletion of its
  child \<open>C\<close> has replaced the frame stored under \<open>B\<close> by a result of
  \<open>drop_lines_key\<close>, which has no attribute. A deletion of \<open>B\<close> with propagation
  then returns normally and leaves \<open>A\<close> with all its rows, the row of \<open>B\<close>
  included.
\<close>

lemma cascada_tras_cascada:
  "filas_subset ''A'' gestorN = Some [fila1, fila3] \<and>
   map_of (subsets gestorN) ''B'' = Some 8 \<and>
   filas_subset ''B'' gestorN = Some [fila1] \<and>
   attr_parent (heap gestorN ! 3) = Some (Some ''A'') \<and>
   attr_parent (heap gestorN ! 8) = None \<and>
   filas_principal gestorN = [fila1, fila2] \<and>
   fst (aplicar_filtro ''B'' True gestorN) = Inr () \<and>
   filas_principal (snd (aplicar_filtro ''B'' True gestorN)) = [fila2] \<and>
   drop_lines_key [fila1, fila3] [fila1] ''id'' = [fila3] \<and>
   filas_subset ''A'' (snd (aplicar_filtro ''B'' True gestorN)) = Some [fila1, fila3]"
proof -
  have 1: "filas_subset ''A'' gestorN = Some [fila1, fila3]"
    and 2: "map_of (subsets gestorN) ''B'' = Some 8"
    and 3: "filas_subset ''B'' gestorN = Some [fila1]"
    and 4: "attr_parent (heap gestorN ! 3) = Some (Some ''A'')"
    and 5: "attr_parent (heap gestorN ! 8) = None"
    and 6: "filas_principal gestorN = [fila1, fila2]"
    by (simp_all add: gestorN_val filas_subset_def filas_principal_def nuevo_def)
  have 7: "fst (aplicar_filtro ''B'' True gestorN) = Inr ()"
    by (simp add: gestorN_val aplicar_defs)
  have 8: "filas_principal (snd (aplicar_filtro ''B'' True gestorN)) = [fila2]"
    by (simp add: gestorN_val filas_principal_def aplicar_defs)
  have 9: "drop_lines_key [fila1, fila3] [fila1] ''id'' = [fila3]"
    by (simp add: drop_lines_key_def fila1_def fila2_def fila3_def)
  have 10: "filas_subset ''A'' (snd (aplicar_filtro ''B'' True gestorN)) = Some [fila1, fila3]"
    by (simp add: gestorN_val filas_subset_def aplicar_defs)
  from 1 2 3 4 5 6 7 8 9 10 show ?thesis by (intro conjI)
qed

text \<open>
  \<open>__init__\<close> (line 32), \<open>restaurar_anterior\<close> (line 51),
  \<open>restaurar_todo\<close> (line 67) and the first step of \<open>aplicar_filtro\<close>
  (line 246) each leave the store entry \<open>principal\<close> and the principal table at one
  address.
\<close>

lemma principal_mismo_marco:
  "map_of (subsets (init df col)) ''principal'' = Some (df_principal (init df col))"
  "historial_principal s \<noteq> [] \<Longrightarrow>
     map_of (subsets (snd (restaurar_anterior s))) ''principal'' =
       Some (df_principal (snd (restaurar_anterior s)))"
  "map_of (subsets (snd (restaurar_todo s))) ''principal'' =
     Some (df_principal (snd (restaurar_todo s)))"
  "map_of (subsets (eliminar_del_principal sub s)) ''principal'' =
     Some (df_principal (eliminar_del_principal sub s))"
  by (simp_all add: init_def restaurar_anterior_def restaurar_todo_def
      eliminar_del_principal_def imprimir_def copy_def alloc_def Let_def update_conv')

section \<open>The claims\<close>

text \<open>
  Claim C1. The claim: when \<open>B\<close> is made from a subset \<open>A\<close> by
  \<open>filtrar_subset\<close>, deleting \<open>B\<close> with propagation leaves the principal table
  without the rows of \<open>B\<close> and replaces the rows of \<open>A\<close> by \<open>A\<close> minus
  \<open>B\<close>. The source records the parent as the name given by the caller (line 204) and
  points the alias \<open>ultimo\<close> at every new subset (line 109). In \<open>gestorA\<close> the
  names \<open>A\<close> and \<open>ultimo\<close> hold the same frame. Filtered from it under the name
  \<open>ultimo\<close>, the subset \<open>B\<close> gets the parent \<open>ultimo\<close>, which is
  \<open>B\<close> itself once line 109 has run: the deletion returns normally, removes the row of
  \<open>B\<close> from the principal table, leaves the store entry \<open>ultimo\<close> without
  rows, and leaves \<open>A\<close> with all its rows, where \<open>A\<close> minus \<open>B\<close> is the
  single row \<open>fila1\<close>. The docstrings say otherwise: deletions are propagated to the
  parent subsets (line 11), \<open>filtrar_subset\<close> returns the new subset with the
  parent link established (line 187), and \<open>aplicar_filtro\<close> also deletes the rows
  from the parent subset (lines 214 and 221). Filtered from the same frame under the name
  \<open>A\<close>, the subset has the parent \<open>A\<close>, and the same deletion leaves
  \<open>A\<close> with \<open>fila1\<close>.
\<close>

theorem cascada_desde_ultimo:
  "filas_principal gestorA = [fila1, fila2, fila3] \<and>
   map_of (subsets gestorA) ''A'' = Some 2 \<and> map_of (subsets gestorA) ''ultimo'' = Some 2 \<and>
   filas (heap gestorA ! 2) = [fila1, fila3] \<and>
   filtrar_subset filtro_exacto ''ultimo'' ''tipo'' [''y''] ''B'' ''OR'' False True gestorA =
     (Inr 3, gestorU) \<and>
   filas_subset ''B'' gestorU = Some [fila3] \<and>
   attr_parent (heap gestorU ! 3) = Some (Some ''ultimo'') \<and>
   map_of (subsets gestorU) ''ultimo'' = Some 3 \<and>
   drop_lines_key [fila1, fila3] [fila3] ''id'' = [fila1] \<and>
   fst (aplicar_filtro ''B'' True gestorU) = Inr () \<and>
   filas_principal (snd (aplicar_filtro ''B'' True gestorU)) = [fila1, fila2] \<and>
   filas_subset ''A'' (snd (aplicar_filtro ''B'' True gestorU)) = Some [fila1, fila3] \<and>
   filas_subset ''ultimo'' (snd (aplicar_filtro ''B'' True gestorU)) = Some [] \<and>
   filtrar_subset filtro_exacto ''A'' ''tipo'' [''y''] ''B'' ''OR'' False True gestorA =
     (Inr 3, gestorB) \<and>
   filas_subset ''A'' (snd (aplicar_filtro ''B'' True gestorB)) = Some [fila1]"
proof -
  have 1: "filas_principal gestorA = [fila1, fila2, fila3]"
    and 2: "map_of (subsets gestorA) ''A'' = Some 2"
    and 3: "map_of (subsets gestorA) ''ultimo'' = Some 2"
    and 4: "filas (heap gestorA ! 2) = [fila1, fila3]"
    by (simp_all add: gestorA_val filas_principal_def nuevo_def)
  have 5: "filtrar_subset filtro_exacto ''ultimo'' ''tipo'' [''y''] ''B'' ''OR'' False True
      gestorA = (Inr 3, gestorU)"
    by (simp add: gestorU_val gestorA_val crear_defs)
  have 6: "filas_subset ''B'' gestorU = Some [fila3]"
    and 7: "attr_parent (heap gestorU ! 3) = Some (Some ''ultimo'')"
    and 8: "map_of (subsets gestorU) ''ultimo'' = Some 3"
    by (simp_all add: gestorU_val filas_subset_def nuevo_def)
  have 9: "drop_lines_key [fila1, fila3] [fila3] ''id'' = [fila1]"
    by (simp add: drop_lines_key_def fila1_def fila2_def fila3_def)
  have 10: "fst (aplicar_filtro ''B'' True gestorU) = Inr ()"
    by (simp add: gestorU_val aplicar_defs)
  have 11: "filas_principal (snd (aplicar_filtro ''B'' True gestorU)) = [fila1, fila2]"
    by (simp add: gestorU_val filas_principal_def aplicar_defs)
  have 12: "filas_subset ''A'' (snd (aplicar_filtro ''B'' True gestorU)) = Some [fila1, fila3]"
    by (simp add: gestorU_val filas_subset_def aplicar_defs)
  have 13: "filas_subset ''ultimo'' (snd (aplicar_filtro ''B'' True gestorU)) = Some []"
    by (simp add: gestorU_val filas_subset_def aplicar_defs)
  have 14: "filtrar_subset filtro_exacto ''A'' ''tipo'' [''y''] ''B'' ''OR'' False True gestorA =
      (Inr 3, gestorB)"
    by (simp add: gestorB_val gestorA_val crear_defs)
  have 15: "filas_subset ''A'' (snd (aplicar_filtro ''B'' True gestorB)) = Some [fila1]"
    using gestorC_val by (simp add: gestorC_def filas_subset_def nuevo_def)
  from 1 2 3 4 5 6 7 8 9 10 11 12 13 14 15 show ?thesis by (intro conjI)
qed

text \<open>
  Claim C2. In a manager reached from \<open>__init__\<close> by any sequence of calls, for a name
  in the store whose frame has rows, \<open>aplicar_filtro\<close> followed at once by
  \<open>restaurar_anterior\<close> leaves the principal table, and the store entry
  \<open>principal\<close>, with the rows the principal table had before the deletion, in the same
  order, and the history as it was. This holds whether the deletion returns or raises at
  line 252, and also over a table without columns, where both calls only print.
\<close>

theorem deshacer_restaura_principal:
  assumes "map_of (subsets (correr F ll (init df col))) n = Some sub"
    and "filas (heap (correr F ll (init df col)) ! sub) \<noteq> []"
  shows "filas_principal (snd (restaurar_anterior
             (snd (aplicar_filtro n pr (correr F ll (init df col)))))) =
           filas_principal (correr F ll (init df col)) \<and>
         filas_subset ''principal'' (snd (restaurar_anterior
             (snd (aplicar_filtro n pr (correr F ll (init df col)))))) =
           Some (filas_principal (correr F ll (init df col))) \<and>
         historial_principal (snd (restaurar_anterior
             (snd (aplicar_filtro n pr (correr F ll (init df col)))))) =
           historial_principal (correr F ll (init df col))"
proof -
  let ?s = "correr F ll (init df col)"
  have b: "bien_formado ?s" by (rule bien_formado_correr)
  have "sub < length (heap ?s)" using b assms(1) by (rule bien_formado_lookup)
  then have c: "columnas (heap ?s ! sub) = columnas df" by (rule columnas_correr)
  have "columnas (heap ?s ! sub) = [] \<longrightarrow>
      historial_principal ?s = [] \<and> filas_subset ''principal'' ?s = Some (filas_principal ?s)"
    using c sin_columnas_correr [of df F ll col] by simp
  with b assms show ?thesis by (rule deshacer_bien_formado)
qed

theorem deshacer_restaura_principal_witness:
  "correr filtro_exacto
     [FiltrarPorPalabra ''descripcion'' [''x''] ''A'' ''OR'' False True True None,
      FiltrarSubset ''A'' ''tipo'' [''y''] ''B'' ''OR'' False True] (init tabla3 ''id'') = gestorB \<and>
   map_of (subsets gestorB) ''B'' = Some 3 \<and> filas (heap gestorB ! 3) = [fila3] \<and>
   filas_principal gestorB = [fila1, fila2, fila3] \<and>
   filas_principal (snd (aplicar_filtro ''B'' True gestorB)) = [fila1, fila2] \<and>
   filas_principal (snd (restaurar_anterior (snd (aplicar_filtro ''B'' True gestorB)))) =
     [fila1, fila2, fila3] \<and>
   filas_subset ''principal'' (snd (restaurar_anterior (snd (aplicar_filtro ''B'' True gestorB))))
     = Some [fila1, fila2, fila3] \<and>
   historial_principal (snd (restaurar_anterior (snd (aplicar_filtro ''B'' True gestorB)))) = []"
proof -
  have m: "map_of (subsets gestorB) ''B'' = Some 3" by (simp add: gestorB_val)
  have f: "filas (heap gestorB ! 3) = [fila3]" by (simp add: gestorB_val nuevo_def)
  have p: "filas_principal gestorB = [fila1, fila2, fila3]"
    by (simp add: gestorB_val filas_principal_def nuevo_def)
  have q: "filas_principal (snd (aplicar_filtro ''B'' True gestorB)) = [fila1, fila2]"
    using gestorC_val by (simp add: gestorC_def filas_principal_def nuevo_def)
  have h: "historial_principal gestorB = []" by (simp add: gestorB_val)
  from deshacer_restaura_principal [where F = filtro_exacto
      and ll = "[FiltrarPorPalabra ''descripcion'' [''x''] ''A'' ''OR'' False True True None,
                 FiltrarSubset ''A'' ''tipo'' [''y''] ''B'' ''OR'' False True]"
      and df = tabla3 and col = "''id''" and n = "''B''" and sub = 3 and pr = True]
  show ?thesis unfolding gestorB_correr using m f p q h by simp
qed

text \<open>
  Claim C3. With a non-empty history \<open>restaurar_anterior\<close> points the principal table
  at the popped snapshot and changes no frame and no store entry other than
  \<open>principal\<close>. In particular, when \<open>aplicar_filtro\<close> has replaced the rows of a
  parent subset (under a name other than \<open>principal\<close>), the undo that follows restores
  the principal table and leaves the parent with the reduced rows. The deletion replaces
  the rows of the parent when the frame deleted is not empty at line 233, that is, has rows
  and columns; the manager is well formed, as every manager reached from \<open>__init__\<close>
  is.
\<close>

theorem restaurar_anterior_solo_principal:
  "(historial_principal s \<noteq> [] \<longrightarrow>
      heap (snd (restaurar_anterior s)) = heap s \<and>
      df_principal (snd (restaurar_anterior s)) = last (historial_principal s) \<and>
      (\<forall>k. k \<noteq> ''principal'' \<longrightarrow>
         map_of (subsets (snd (restaurar_anterior s))) k = map_of (subsets s) k \<and>
         filas_subset k (snd (restaurar_anterior s)) = filas_subset k s)) \<and>
   (bien_formado s \<and> map_of (subsets s) n = Some sub \<and> filas (heap s ! sub) \<noteq> [] \<and>
    columnas (heap s ! sub) \<noteq> [] \<and>
    attr_parent (heap s ! sub) = Some (Some pn) \<and> pn \<noteq> [] \<and> pn \<noteq> ''principal'' \<and>
    map_of (subsets s) pn = Some padre \<longrightarrow>
      filas_subset pn (snd (aplicar_filtro n True s)) =
        Some (drop_lines_key (filas (heap s ! padre)) (filas (heap s ! sub)) (columna_id s)) \<and>
      filas_subset pn (snd (restaurar_anterior (snd (aplicar_filtro n True s)))) =
        Some (drop_lines_key (filas (heap s ! padre)) (filas (heap s ! sub)) (columna_id s)) \<and>
      filas_principal (snd (restaurar_anterior (snd (aplicar_filtro n True s)))) =
        filas_principal s)"
proof -
  have marco: "map_of (subsets (snd (restaurar_anterior t))) k = map_of (subsets t) k \<and>
      filas_subset k (snd (restaurar_anterior t)) = filas_subset k t"
    if "historial_principal t \<noteq> []" and "k \<noteq> ''principal''" for t k
    using that
    by (simp add: restaurar_anterior_marco filas_subset_def update_conv' split: option.splits)
  have parte1: "historial_principal s \<noteq> [] \<longrightarrow>
      heap (snd (restaurar_anterior s)) = heap s \<and>
      df_principal (snd (restaurar_anterior s)) = last (historial_principal s) \<and>
      (\<forall>k. k \<noteq> ''principal'' \<longrightarrow>
         map_of (subsets (snd (restaurar_anterior s))) k = map_of (subsets s) k \<and>
         filas_subset k (snd (restaurar_anterior s)) = filas_subset k s)"
    using marco [of s] by (simp add: restaurar_anterior_marco)
  have parte2: "filas_subset pn (snd (aplicar_filtro n True s)) =
        Some (drop_lines_key (filas (heap s ! padre)) (filas (heap s ! sub)) (columna_id s)) \<and>
      filas_subset pn (snd (restaurar_anterior (snd (aplicar_filtro n True s)))) =
        Some (drop_lines_key (filas (heap s ! padre)) (filas (heap s ! sub)) (columna_id s)) \<and>
      filas_principal (snd (restaurar_anterior (snd (aplicar_filtro n True s)))) =
        filas_principal s"
    if h: "bien_formado s" "map_of (subsets s) n = Some sub" "filas (heap s ! sub) \<noteq> []"
      "columnas (heap s ! sub) \<noteq> []"
      "attr_parent (heap s ! sub) = Some (Some pn)" "pn \<noteq> []" "pn \<noteq> ''principal''"
      "map_of (subsets s) pn = Some padre"
  proof -
    let ?t = "snd (aplicar_filtro n True s)"
    have v: "\<not> vacio (heap s ! sub)" using h(3,4) by (simp add: vacio_def)
    have a: "filas_subset pn ?t =
        Some (drop_lines_key (filas (heap s ! padre)) (filas (heap s ! sub)) (columna_id s))"
      using h(1,2) v h(5,6,7,8) by (rule padre_aplicar_filtro)
    have hh: "historial_principal ?t = historial_principal s @ [length (heap s)]"
      and ff: "heap ?t ! length (heap s) = copiar (heap s ! df_principal s)"
      using h(1,2) v by (rule aplicar_filtro_historial_aux)+
    from hh have "historial_principal ?t \<noteq> []" by simp
    then have b: "filas_subset pn (snd (restaurar_anterior ?t)) = filas_subset pn ?t"
      using h(7) marco by blast
    have c: "filas_principal (snd (restaurar_anterior ?t)) = filas_principal s"
      using hh ff
      by (simp add: restaurar_anterior_marco filas_principal_def copiar_def nuevo_def)
    from a b c show ?thesis by simp
  qed
  from parte1 parte2 show ?thesis by blast
qed

theorem restaurar_anterior_solo_principal_witness:
  "historial_principal gestorC = [4] \<and>
   heap (snd (restaurar_anterior gestorC)) = heap gestorC \<and>
   df_principal (snd (restaurar_anterior gestorC)) = 4 \<and>
   map_of (subsets (snd (restaurar_anterior gestorC))) ''A'' = Some 7 \<and>
   bien_formado gestorB \<and> map_of (subsets gestorB) ''B'' = Some 3 \<and>
   filas (heap gestorB ! 3) = [fila3] \<and> columnas (heap gestorB ! 3) = cols3 \<and>
   attr_parent (heap gestorB ! 3) = Some (Some ''A'') \<and>
   filas_subset ''A'' gestorB = Some [fila1, fila3] \<and>
   filas_subset ''A'' (snd (aplicar_filtro ''B'' True gestorB)) = Some [fila1] \<and>
   filas_subset ''A'' (snd (restaurar_anterior (snd (aplicar_filtro ''B'' True gestorB)))) =
     Some [fila1] \<and>
   filas_principal (snd (restaurar_anterior (snd (aplicar_filtro ''B'' True gestorB)))) =
     [fila1, fila2, fila3]"
proof -
  have h: "historial_principal gestorC = [4]" by (simp add: gestorC_val)
  have mA: "map_of (subsets gestorC) ''A'' = Some 7" by (simp add: gestorC_val)
  have b: "bien_formado gestorB" by (simp add: gestorB_val bien_formado_def direcciones_def)
  have m: "map_of (subsets gestorB) ''B'' = Some 3" by (simp add: gestorB_val)
  have f: "filas (heap gestorB ! 3) = [fila3]" by (simp add: gestorB_val nuevo_def)
  have c: "columnas (heap gestorB ! 3) = cols3" by (simp add: gestorB_val nuevo_def)
  have a: "attr_parent (heap gestorB ! 3) = Some (Some ''A'')"
    by (simp add: gestorB_val nuevo_def)
  have p: "map_of (subsets gestorB) ''A'' = Some 2" by (simp add: gestorB_val)
  have fa: "filas (heap gestorB ! 2) = [fila1, fila3]" by (simp add: gestorB_val nuevo_def)
  have sA: "filas_subset ''A'' gestorB = Some [fila1, fila3]"
    by (simp add: filas_subset_def p fa)
  have fp: "filas_principal gestorB = [fila1, fila2, fila3]"
    by (simp add: gestorB_val filas_principal_def nuevo_def)
  have k: "columna_id gestorB = ''id''" by (simp add: gestorB_val)
  have d: "drop_lines_key [fila1, fila3] [fila3] ''id'' = [fila1]"
    by (simp add: drop_lines_key_def fila1_def fila2_def fila3_def)
  from restaurar_anterior_solo_principal [of gestorC "''B''" 3 "''A''" 2]
  have 1: "heap (snd (restaurar_anterior gestorC)) = heap gestorC \<and>
      df_principal (snd (restaurar_anterior gestorC)) = 4 \<and>
      map_of (subsets (snd (restaurar_anterior gestorC))) ''A'' = Some 7"
    using h mA by simp
  from restaurar_anterior_solo_principal [of gestorB "''B''" 3 "''A''" 2]
  have 2: "filas_subset ''A'' (snd (aplicar_filtro ''B'' True gestorB)) = Some [fila1] \<and>
      filas_subset ''A'' (snd (restaurar_anterior (snd (aplicar_filtro ''B'' True gestorB)))) =
        Some [fila1] \<and>
      filas_principal (snd (restaurar_anterior (snd (aplicar_filtro ''B'' True gestorB)))) =
        [fila1, fila2, fila3]"
    using b m f c a p fa fp k d by (simp add: cols3_def)
  from h 1 b m f c a sA 2 show ?thesis by simp
qed

text \<open>
  Claim C4, amended. Creating a subset under \<open>principal\<close> or \<open>ultimo\<close> while that
  name is in the store raises \<open>ValueError\<close>, the duplicate-name error of the source,
  and leaves the manager unchanged; \<open>principal\<close> is in the store after every sequence
  of calls, so a creation under it always raises. A creation that succeeds was made under
  a name that was not in the store, and points both that name and the alias \<open>ultimo\<close>
  at the new frame.
\<close>

theorem crear_con_nombre_reservado:
  "(n \<in> {''principal'', ''ultimo''} \<and> map_of (subsets s) n \<noteq> None \<longrightarrow>
      filtrar_por_palabra F c p n co cs me up par s = (Inl (ValueError n), s)) \<and>
   filtrar_por_palabra F c p ''principal'' co cs me up par (correr F' ll (init df col)) =
     (Inl (ValueError ''principal''), correr F' ll (init df col)) \<and>
   (filtrar_por_palabra F c p n co cs me up par s = (Inr a, s1) \<longrightarrow>
      map_of (subsets s) n = None \<and> map_of (subsets s1) n = Some a \<and>
      map_of (subsets s1) ''ultimo'' = Some a)"
proof -
  have "map_of (subsets (init df col)) ''principal'' \<noteq> None" by (simp add: init_def)
  then have "map_of (subsets (correr F' ll (init df col))) ''principal'' \<noteq> None"
    by (rule principal_correr)
  then show ?thesis
    using filtrar_por_palabra_registra [of F c p n co cs me up par s a s1]
      filtrar_por_palabra_Inr(2) [of F c p n co cs me up par s a s1]
    by (simp add: filtrar_por_palabra_duplicado)
qed

theorem crear_con_nombre_reservado_witness:
  "map_of (subsets gestorA) ''ultimo'' = Some 2 \<and>
   filtrar_por_palabra filtro_exacto ''descripcion'' [''x''] ''ultimo'' ''OR'' False True True
     None gestorA = (Inl (ValueError ''ultimo''), gestorA) \<and>
   fst (filtrar_por_palabra filtro_exacto ''tipo'' [''y''] ''C'' ''OR'' False True False
     None gestorA) = Inr 3 \<and>
   map_of (subsets (snd (filtrar_por_palabra filtro_exacto ''tipo'' [''y''] ''C'' ''OR'' False True
     False None gestorA))) ''ultimo'' = Some 3"
proof -
  let ?r = "filtrar_por_palabra filtro_exacto ''tipo'' [''y''] ''C'' ''OR'' False True False
     None gestorA"
  have m: "map_of (subsets gestorA) ''ultimo'' = Some 2" by (simp add: gestorA_val)
  have f: "fst ?r = Inr 3"
    by (simp add: gestorA_val filtrar_por_palabra_def filtro_exacto_def alloc_def imprimir_def
        Let_def)
  then have r: "?r = (Inr 3, snd ?r)" by (simp add: prod_eq_iff)
  from m have "''ultimo'' \<in> {''principal'', ''ultimo''} \<and>
      map_of (subsets gestorA) ''ultimo'' \<noteq> None"
    by simp
  then have d: "filtrar_por_palabra filtro_exacto ''descripcion'' [''x''] ''ultimo'' ''OR'' False
      True True None gestorA = (Inl (ValueError ''ultimo''), gestorA)"
    by (rule crear_con_nombre_reservado [THEN conjunct1, THEN mp])
  have u: "map_of (subsets (snd ?r)) ''ultimo'' = Some 3"
    using crear_con_nombre_reservado [THEN conjunct2, THEN conjunct2, THEN mp, OF r]
    by (rule conjunct2 [THEN conjunct2])
  show ?thesis by (rule conjI [OF m conjI [OF d conjI [OF f u]]])
qed

text \<open>
  Claim C4 says that creating a subset under \<open>principal\<close> or \<open>ultimo\<close> never raises
  the duplicate-name error, even with the alias in the store. In the source the name check
  of \<open>filtrar_por_palabra\<close> (lines 93-94) has no exception for these names: with the
  alias present the call raises \<open>ValueError\<close>.
\<close>

theorem crear_con_nombre_reservado_counterexample:
  "map_of (subsets gestor0) ''principal'' = Some 1 \<and>
   fst (filtrar_por_palabra filtro_exacto ''descripcion'' [''x''] ''principal'' ''OR'' False True
          True None gestor0) = Inl (ValueError ''principal'') \<and>
   map_of (subsets gestorA) ''ultimo'' = Some 2 \<and>
   fst (filtrar_por_palabra filtro_exacto ''descripcion'' [''x''] ''ultimo'' ''OR'' False True
          True None gestorA) = Inl (ValueError ''ultimo'')"
  by (simp add: gestor0_val gestorA_val filtrar_por_palabra_duplicado)

text \<open>
  Claim C5. Once a subset has been created under a name, by \<open>filtrar_por_palabra\<close> or
  by \<open>filtrar_subset\<close>, a second creation under that name raises \<open>ValueError\<close> (the
  duplicate-name error of the source) and leaves the manager as it was: store, principal
  table, history, heap and output. Through \<open>filtrar_subset\<close> the source name is looked up
  first, so a missing source raises \<open>KeyError\<close> instead, again without any change.
\<close>

theorem nombre_duplicado:
  assumes "filtrar_por_palabra F c p n co cs me up par s = (Inr a, s1) \<or>
           filtrar_subset F no c p n co cs me s = (Inr a, s1)"
  shows "filtrar_por_palabra F' c' p' n co' cs' me' up' par' s1 = (Inl (ValueError n), s1) \<and>
         (map_of (subsets s1) no' \<noteq> None \<longrightarrow>
            filtrar_subset F' no' c' p' n co' cs' me' s1 = (Inl (ValueError n), s1)) \<and>
         (map_of (subsets s1) no' = None \<longrightarrow>
            filtrar_subset F' no' c' p' n co' cs' me' s1 = (Inl (KeyError no'), s1))"
proof -
  have "map_of (subsets s1) n \<noteq> None"
    using assms
  proof
    assume "filtrar_por_palabra F c p n co cs me up par s = (Inr a, s1)"
    then show ?thesis using filtrar_por_palabra_registra(1) by fastforce
  next
    assume h: "filtrar_subset F no c p n co cs me s = (Inr a, s1)"
    show ?thesis
    proof (cases "map_of (subsets s) no")
      case None
      with h show ?thesis by (simp add: filtrar_subset_None)
    next
      case (Some x)
      let ?r = "filtrar_por_palabra F c p n co cs me True (Some no) (s\<lparr>df_principal := x\<rparr>)"
      from h have "fst ?r = Inr a" and s1: "s1 = (snd ?r)\<lparr>df_principal := df_principal s\<rparr>"
        by (simp_all add: filtrar_subset_Some [OF Some])
      then have "?r = (Inr a, snd ?r)" by (simp add: prod_eq_iff)
      then have "map_of (subsets (snd ?r)) n = Some a" by (rule filtrar_por_palabra_registra(1))
      with s1 show ?thesis by simp
    qed
  qed
  then show ?thesis
    by (simp add: filtrar_por_palabra_duplicado filtrar_subset_duplicado filtrar_subset_None)
qed

theorem nombre_duplicado_witness:
  "filtrar_por_palabra filtro_exacto ''descripcion'' [''x''] ''A'' ''OR'' False True True None
     gestor0 = (Inr 2, gestorA) \<and>
   filtrar_por_palabra filtro_exacto ''tipo'' [''y''] ''A'' ''AND'' True False False None gestorA =
     (Inl (ValueError ''A''), gestorA) \<and>
   map_of (subsets gestorA) ''A'' \<noteq> None \<and>
   filtrar_subset filtro_exacto ''A'' ''tipo'' [''y''] ''A'' ''OR'' False True gestorA =
     (Inl (ValueError ''A''), gestorA)"
proof -
  have h: "filtrar_por_palabra filtro_exacto ''descripcion'' [''x''] ''A'' ''OR'' False True True
             None gestor0 = (Inr 2, gestorA)"
    by (simp add: gestorA_val gestor0_val crear_defs)
  have m: "map_of (subsets gestorA) ''A'' \<noteq> None" by (simp add: gestorA_val)
  from h m nombre_duplicado [of filtro_exacto "''descripcion''" "[''x'']" "''A''" "''OR''" False
      True True None gestor0 2 gestorA "''A''" filtro_exacto "''tipo''" "[''y'']" "''AND''" True
      False False None "''A''"]
    nombre_duplicado [of filtro_exacto "''descripcion''" "[''x'']" "''A''" "''OR''" False
      True True None gestor0 2 gestorA "''A''" filtro_exacto "''tipo''" "[''y'']" "''OR''" False
      True True None "''A''"]
  show ?thesis by simp
qed

text \<open>
  Claim C6, amended. For a name in the store of a well-formed manager, \<open>aplicar_filtro\<close>
  pushes on the history exactly when the frame stored under the name is not empty in the
  sense of \<open>DataFrame.empty\<close>, the test of line 233: the frame has a row and a column.
  On an empty frame the call returns normally and only prints a notice: principal table,
  store, history and heap are unchanged. On any other frame the call appends exactly one
  entry to the history, a new frame with the rows the principal table had before the call,
  whether or not any row of the principal table is removed, and whether the call then
  returns or raises at line 252. It raises there exactly when propagation is asked for and
  the frame has a data column \<open>_parent\<close> and no attribute of that name.
\<close>

theorem aplicar_filtro_historial:
  assumes "bien_formado s" and "map_of (subsets s) n = Some sub"
  shows "(vacio (heap s ! sub) \<longrightarrow>
            aplicar_filtro n pr s = (Inr (), s\<lparr>salida := salida s @ [SubsetVacio n]\<rparr>)) \<and>
         (\<not> vacio (heap s ! sub) \<longrightarrow>
            historial_principal (snd (aplicar_filtro n pr s)) =
              historial_principal s @ [length (heap s)] \<and>
            filas (heap (snd (aplicar_filtro n pr s)) ! length (heap s)) = filas_principal s \<and>
            fst (aplicar_filtro n pr s) =
              (if pr \<and> attr_parent (heap s ! sub) = None \<and>
                  ''_parent'' \<in> set (columnas (heap s ! sub))
               then Inl (ValueError ''_parent'') else Inr ()))"
proof -
  have "heap (snd (aplicar_filtro n pr s)) ! length (heap s) = copiar (heap s ! df_principal s)
      \<Longrightarrow> filas (heap (snd (aplicar_filtro n pr s)) ! length (heap s)) = filas_principal s"
    by (simp add: filas_principal_def copiar_def nuevo_def)
  then show ?thesis
    using aplicar_filtro_historial_aux [OF assms, of pr] aplicar_filtro_vacio [OF assms(2), of pr]
    by blast
qed

theorem aplicar_filtro_historial_witness:
  "bien_formado gestorC \<and> map_of (subsets gestorC) ''B'' = Some 3 \<and>
   filas (heap gestorC ! 3) = [fila3] \<and> columnas (heap gestorC ! 3) = cols3 \<and>
   filas_principal gestorC = [fila1, fila2] \<and>
   fst (aplicar_filtro ''B'' True gestorC) = Inr () \<and>
   historial_principal (snd (aplicar_filtro ''B'' True gestorC)) = [4, 8] \<and>
   filas (heap (snd (aplicar_filtro ''B'' True gestorC)) ! 8) = [fila1, fila2] \<and>
   filas_principal (snd (aplicar_filtro ''B'' True gestorC)) = [fila1, fila2] \<and>
   bien_formado gestorE \<and> map_of (subsets gestorE) ''E'' = Some 2 \<and>
   filas (heap gestorE ! 2) = [] \<and>
   aplicar_filtro ''E'' True gestorE =
     (Inr (), gestorE\<lparr>salida := salida gestorE @ [SubsetVacio ''E'']\<rparr>)"
proof -
  have b: "bien_formado gestorC" by (simp add: gestorC_val bien_formado_def direcciones_def)
  have m: "map_of (subsets gestorC) ''B'' = Some 3" by (simp add: gestorC_val)
  have f: "filas (heap gestorC ! 3) = [fila3]" by (simp add: gestorC_val nuevo_def)
  have c: "columnas (heap gestorC ! 3) = cols3" by (simp add: gestorC_val nuevo_def)
  have a: "attr_parent (heap gestorC ! 3) = Some (Some ''A'')"
    by (simp add: gestorC_val nuevo_def)
  have p: "filas_principal gestorC = [fila1, fila2]"
    by (simp add: gestorC_val filas_principal_def nuevo_def)
  have h: "historial_principal gestorC = [4]" and l: "length (heap gestorC) = 8"
    by (simp_all add: gestorC_val)
  have q: "filas_principal (snd (aplicar_filtro ''B'' True gestorC)) = [fila1, fila2]"
    by (simp add: gestorC_val filas_principal_def aplicar_defs)
  have nv: "\<not> vacio (heap gestorC ! 3)" by (simp add: vacio_def f c cols3_def)
  have 1: "historial_principal (snd (aplicar_filtro ''B'' True gestorC)) = [4, 8] \<and>
      filas (heap (snd (aplicar_filtro ''B'' True gestorC)) ! 8) = [fila1, fila2] \<and>
      fst (aplicar_filtro ''B'' True gestorC) = Inr ()"
    using aplicar_filtro_historial [OF b m, of True, THEN conjunct2, THEN mp, OF nv]
    by (simp add: h l p a)
  have bE: "bien_formado gestorE" by (simp add: gestorE_val bien_formado_def direcciones_def)
  have mE: "map_of (subsets gestorE) ''E'' = Some 2" by (simp add: gestorE_val)
  have fE: "filas (heap gestorE ! 2) = []" by (simp add: gestorE_val nuevo_def)
  then have vE: "vacio (heap gestorE ! 2)" by (simp add: vacio_def)
  have 2: "aplicar_filtro ''E'' True gestorE =
      (Inr (), gestorE\<lparr>salida := salida gestorE @ [SubsetVacio ''E'']\<rparr>)"
    by (rule aplicar_filtro_historial [OF bE mE, of True, THEN conjunct1, THEN mp, OF vE])
  from b m f c p 1 q bE mE fE 2 show ?thesis by simp
qed

text \<open>
  Claim C6 says that \<open>aplicar_filtro\<close> pushes a snapshot exactly when the subset has
  rows. The frame stored under \<open>principal\<close> in \<open>gestorS\<close> has three rows and no
  column, so \<open>DataFrame.empty\<close> is true at line 233: the call prints the notice,
  returns, and the history stays empty.
\<close>

theorem aplicar_filtro_historial_counterexample:
  "map_of (subsets gestorS) ''principal'' = Some 1 \<and>
   filas (heap gestorS ! 1) = [fila_vacia, fila_vacia, fila_vacia] \<and>
   length (filas (heap gestorS ! 1)) = 3 \<and> columnas (heap gestorS ! 1) = [] \<and>
   historial_principal gestorS = [] \<and>
   aplicar_filtro ''principal'' True gestorS =
     (Inr (), gestorS\<lparr>salida := [SubsetVacio ''principal'']\<rparr>) \<and>
   historial_principal (snd (aplicar_filtro ''principal'' True gestorS)) = []"
  by (simp add: gestorS_val aplicar_filtro_def vacio_def imprimir_def nuevo_def)

text \<open>
  Claim C7. Whatever \<open>filtrar_subset\<close> returns or raises (missing source, duplicate
  name, an exception of the filter, or the new subset), the manager it leaves has the
  principal table of before: the same frame, unchanged.
\<close>

theorem filtrar_subset_conserva_principal:
  "df_principal (snd (filtrar_subset F no c p n co cs me s)) = df_principal s \<and>
   (df_principal s < length (heap s) \<longrightarrow>
      heap (snd (filtrar_subset F no c p n co cs me s)) ! df_principal s =
        heap s ! df_principal s \<and>
      filas_principal (snd (filtrar_subset F no c p n co cs me s)) = filas_principal s)"
proof -
  let ?t = "snd (filtrar_subset F no c p n co cs me s)"
  have d: "df_principal ?t = df_principal s" by (rule filtrar_subset_campos)
  have "heap ?t ! df_principal s = heap s ! df_principal s"
    if "df_principal s < length (heap s)"
    using that by (rule nth_take_eq [OF filtrar_subset_campos(1)])
  with d show ?thesis by (simp add: filas_principal_def)
qed

theorem filtrar_subset_conserva_principal_witness:
  "df_principal (snd (filtrar_subset filtro_exacto ''A'' ''tipo'' [''y''] ''B'' ''OR'' False True
      gestorA)) = 1 \<and>
   df_principal gestorA = 1 \<and> df_principal gestorA < length (heap gestorA) \<and>
   filas_principal (snd (filtrar_subset filtro_exacto ''A'' ''tipo'' [''y''] ''B'' ''OR'' False
      True gestorA)) = [fila1, fila2, fila3] \<and>
   fst (filtrar_subset filtro_exacto ''A'' ''tipo'' [''y''] ''A'' ''OR'' False True gestorA) =
     Inl (ValueError ''A'') \<and>
   filas_principal (snd (filtrar_subset filtro_exacto ''A'' ''tipo'' [''y''] ''A'' ''OR'' False
      True gestorA)) = [fila1, fila2, fila3]"
  using filtrar_subset_conserva_principal [of filtro_exacto "''A''" "''tipo''" "[''y'']" "''B''"
      "''OR''" False True gestorA]
    filtrar_subset_conserva_principal [of filtro_exacto "''A''" "''tipo''" "[''y'']" "''A''"
      "''OR''" False True gestorA]
  by (simp add: gestorA_val filas_principal_def nuevo_def filtrar_subset_def
      filtrar_por_palabra_def)

text \<open>
  Claim C8. After any sequence of calls on a manager built from the frame \<open>df\<close>,
  \<open>restaurar_todo\<close> returns normally and leaves the principal table with the rows and
  the columns of \<open>df\<close>, a store whose only name is \<open>principal\<close> (holding these
  rows), and an empty history.
\<close>

theorem restaurar_todo_original:
  "fst (restaurar_todo (correr F cs (init df col))) = Inr () \<and>
   filas_principal (snd (restaurar_todo (correr F cs (init df col)))) = filas df \<and>
   columnas (heap (snd (restaurar_todo (correr F cs (init df col)))) !
     df_principal (snd (restaurar_todo (correr F cs (init df col))))) = columnas df \<and>
   map fst (subsets (snd (restaurar_todo (correr F cs (init df col))))) = [''principal''] \<and>
   filas_subset ''principal'' (snd (restaurar_todo (correr F cs (init df col)))) =
     Some (filas df) \<and>
   historial_principal (snd (restaurar_todo (correr F cs (init df col)))) = []"
  using original_correr [of F cs df col]
  by (simp add: restaurar_todo_def filas_principal_def filas_subset_def imprimir_def Let_def
      copy_def alloc_def nuevo_def copiar_def)

theorem restaurar_todo_original_witness:
  "historial_principal gestorC = [4] \<and> filas_principal gestorC = [fila1, fila2] \<and>
   fst (restaurar_todo gestorC) = Inr () \<and>
   filas_principal (snd (restaurar_todo gestorC)) = [fila1, fila2, fila3] \<and>
   map fst (subsets (snd (restaurar_todo gestorC))) = [''principal''] \<and>
   filas_subset ''principal'' (snd (restaurar_todo gestorC)) = Some [fila1, fila2, fila3] \<and>
   historial_principal (snd (restaurar_todo gestorC)) = []"
proof -
  have h: "historial_principal gestorC = [4]" by (simp add: gestorC_val)
  have p: "filas_principal gestorC = [fila1, fila2]"
    by (simp add: gestorC_val filas_principal_def nuevo_def)
  have t: "filas tabla3 = [fila1, fila2, fila3]" by (simp add: tabla3_def nuevo_def)
  from restaurar_todo_original [of filtro_exacto
      "[FiltrarPorPalabra ''descripcion'' [''x''] ''A'' ''OR'' False True True None,
        FiltrarSubset ''A'' ''tipo'' [''y''] ''B'' ''OR'' False True,
        AplicarFiltro ''B'' True]" tabla3 "''id''"]
  show ?thesis unfolding gestorC_correr using h p t by simp
qed

text \<open>
  Claim C9. With an empty history \<open>restaurar_anterior\<close> returns normally and changes
  nothing but the standard output, where it prints the notice that there is nothing to undo:
  the principal table, the store, the history and the heap are those of before.
\<close>

theorem restaurar_anterior_sin_historial:
  "historial_principal s = [] \<Longrightarrow>
     restaurar_anterior s = (Inr (), s\<lparr>salida := salida s @ [NoHayOperaciones]\<rparr>)"
  by (simp add: restaurar_anterior_def imprimir_def)

theorem restaurar_anterior_sin_historial_witness:
  "historial_principal gestorB = [] \<and>
   restaurar_anterior gestorB =
     (Inr (), gestorB\<lparr>salida := salida gestorB @ [NoHayOperaciones]\<rparr>)"
  using restaurar_anterior_sin_historial [of gestorB] by (simp add: gestorB_val)

text \<open>
  Claim C10. The claim: after \<open>__init__\<close> and after every call the store entry
  \<open>principal\<close> is the principal table itself. Lines 32, 51, 67 and 246 assign one
  object to both. Lines 257-261 assign to the store entry of the parent a result of
  \<open>drop_lines_key\<close> of its own, also when the parent is \<open>principal\<close>: in
  \<open>gestorY\<close>, after a subset filtered from \<open>principal\<close> has been deleted with
  propagation, the store entry \<open>principal\<close> is the frame at address 6 and the
  principal table the frame at address 4, two frames with the same rows. A call of
  \<open>agregar_excluidos\<close> on \<open>principal\<close> then sets the attribute on the frame of
  the store and not on the principal table. After the same deletion under a parent with
  another name, in \<open>gestorC\<close>, the store entry and the principal table are one frame.
\<close>

theorem alias_principal_separado:
  "gestorY = correr filtro_exacto
     [FiltrarSubset ''principal'' ''tipo'' [''y''] ''Y'' ''OR'' False True,
      AplicarFiltro ''Y'' True] (init tabla3 ''id'') \<and>
   map_of (subsets gestorY) ''principal'' = Some 6 \<and> df_principal gestorY = 4 \<and>
   filas_principal gestorY = [fila1] \<and> filas_subset ''principal'' gestorY = Some [fila1] \<and>
   fst (agregar_excluidos ''principal'' [''w''] gestorY) = Inr () \<and>
   attr_palabras_excluidas
     (heap (snd (agregar_excluidos ''principal'' [''w''] gestorY)) ! 6) = Some [''w''] \<and>
   attr_palabras_excluidas
     (heap (snd (agregar_excluidos ''principal'' [''w''] gestorY)) ! 4) = None \<and>
   map_of (subsets gestorC) ''principal'' = Some 5 \<and> df_principal gestorC = 5"
proof -
  have 1: "map_of (subsets gestorY) ''principal'' = Some 6" and 2: "df_principal gestorY = 4"
    and 3: "filas_principal gestorY = [fila1]"
    and 4: "filas_subset ''principal'' gestorY = Some [fila1]"
    by (simp_all add: gestorY_val filas_principal_def filas_subset_def nuevo_def)
  have 5: "fst (agregar_excluidos ''principal'' [''w''] gestorY) = Inr ()"
    and 6: "attr_palabras_excluidas
      (heap (snd (agregar_excluidos ''principal'' [''w''] gestorY)) ! 6) = Some [''w'']"
    and 7: "attr_palabras_excluidas
      (heap (snd (agregar_excluidos ''principal'' [''w''] gestorY)) ! 4) = None"
    by (simp_all add: gestorY_val agregar_excluidos_def imprimir_def nuevo_def cols3_def)
  have 8: "map_of (subsets gestorC) ''principal'' = Some 5" and 9: "df_principal gestorC = 5"
    by (simp_all add: gestorC_val)
  from gestorY_def 1 2 3 4 5 6 7 8 9 show ?thesis by (intro conjI)
qed

end
